theory Spec2Isabelle
  imports Main
begin

text \<open>
  A model of the game client of USTCchess (\<^verbatim>\<open>src/main/game.ts\<close>, with
  \<^verbatim>\<open>isEqualPosition\<close> of the board component): the check detector
  \<^verbatim>\<open>getIsChecked\<close>, the request correlator \<^verbatim>\<open>contactToServer\<close>, the dispatcher
  \<^verbatim>\<open>onMessage\<close> with the handshake, the local requests of \<^verbatim>\<open>contact\<close>, and the
  coordinator \<^verbatim>\<open>createClients\<close>. The first part gives the definitions, each
  after the code it renders; the second part proves the properties.

  The program runs on one event loop: a message, a timer and a local request
  are each handled to the end before the next. So the state of a client is a
  record, each operation is a function from state to state, and what a client
  does to the outside (socket, dialogs, window, promises, timers) is appended
  to a log of effects carried in the state.
\<close>

section \<open>Positions and the check detector\<close>

text \<open>
  The board is \<^verbatim>\<open>Chessboard = (Chess | null)[][]\<close>; a \<^verbatim>\<open>Position\<close> is the
  array \<^verbatim>\<open>[row, column]\<close> of two numbers. The declarations live in
  \<^verbatim>\<open>types/chessboard\<close>, which is not part of the sources at hand, so only
  the two fields that \<^verbatim>\<open>getIsChecked\<close> reads are kept in the record.
  Coordinates are integers; the decimal rendering below is the one
  \<^verbatim>\<open>JSON.stringify\<close> produces for an integral number of magnitude
  below \<open>10\<^sup>2\<^sup>1\<close>, which covers every array index.
\<close>

type_synonym Position = "int \<times> int"

record Chess =
  camp :: int
  isChief :: bool

type_synonym Chessboard = "Chess option list list"

subsection \<open>\<^verbatim>\<open>JSON.stringify\<close> on a position\<close>

definition digit :: "nat \<Rightarrow> char" where
  "digit d =
     (if d = 0 then CHR ''0'' else if d = 1 then CHR ''1'' else if d = 2 then CHR ''2''
      else if d = 3 then CHR ''3'' else if d = 4 then CHR ''4'' else if d = 5 then CHR ''5''
      else if d = 6 then CHR ''6'' else if d = 7 then CHR ''7'' else if d = 8 then CHR ''8''
      else CHR ''9'')"

fun show_nat :: "nat \<Rightarrow> string" where
  "show_nat n = (if n < 10 then [digit n] else show_nat (n div 10) @ [digit (n mod 10)])"

declare show_nat.simps [simp del]

definition show_int :: "int \<Rightarrow> string" where
  "show_int i = (if i < 0 then CHR ''-'' # show_nat (nat (- i)) else show_nat (nat i))"

definition JSON_stringify :: "Position \<Rightarrow> string" where
  "JSON_stringify p = ''['' @ show_int (fst p) @ '','' @ show_int (snd p) @ '']''"

subsection \<open>\<^verbatim>\<open>isEqualPosition\<close> and \<^verbatim>\<open>isInAvailableMoves\<close> of the board component\<close>

definition isEqualPosition :: "Position \<Rightarrow> Position \<Rightarrow> bool" where
  "isEqualPosition pos1 pos2 = (fst pos1 = fst pos2 \<and> snd pos1 = snd pos2)"

definition isInAvailableMoves :: "Position list \<Rightarrow> Position \<Rightarrow> bool" where
  "isInAvailableMoves availableMoves pos = list_ex (\<lambda>p. isEqualPosition p pos) availableMoves"

subsection \<open>\<^verbatim>\<open>GameClient.getIsChecked\<close>\<close>

text \<open>
  \<^verbatim>\<open>chess?.camp === this.camp\<close>: an empty square yields \<^verbatim>\<open>undefined\<close>, which is
  never strictly equal to a number.
\<close>

definition own :: "int \<Rightarrow> Chess option \<Rightarrow> bool" where
  "own myCamp chess = (case chess of None \<Rightarrow> False | Some ch \<Rightarrow> Chess.camp ch = myCamp)"

definition royal :: "int \<Rightarrow> Chess option \<Rightarrow> bool" where
  "royal myCamp chess = (case chess of None \<Rightarrow> False | Some ch \<Rightarrow> Chess.camp ch = myCamp \<and> isChief ch)"

text \<open>
  \<^verbatim>\<open>moves.forEach((p) => opponentMoves.add(JSON.stringify(p)))\<close> on the
  \<^verbatim>\<open>Set<string>\<close>.
\<close>

definition add_all :: "Position list \<Rightarrow> string set \<Rightarrow> string set" where
  "add_all moves opponentMoves = foldl (\<lambda>s p. insert (JSON_stringify p) s) opponentMoves moves"

text \<open>
  The body of the inner loop at square \<open>(i, j)\<close>, on the two accumulators
  \<^verbatim>\<open>myChiefPos\<close> and \<^verbatim>\<open>opponentMoves\<close>. \<open>getAvailableMoves\<close> is the method
  inherited from \<^verbatim>\<open>GameData\<close>, taken as a parameter.
\<close>

definition visit ::
  "(Position \<Rightarrow> Position list) \<Rightarrow> int \<Rightarrow> nat \<Rightarrow> nat \<Rightarrow> Chess option \<Rightarrow>
     Position list \<times> string set \<Rightarrow> Position list \<times> string set" where
  "visit getAvailableMoves myCamp i j chess acc =
     (if own myCamp chess
      then (case chess of
              Some ch \<Rightarrow> if isChief ch then (fst acc @ [(int i, int j)], snd acc) else acc
            | None \<Rightarrow> acc)
      else (fst acc, add_all (getAvailableMoves (int i, int j)) (snd acc)))"

fun scan_row ::
  "(Position \<Rightarrow> Position list) \<Rightarrow> int \<Rightarrow> nat \<Rightarrow> nat \<Rightarrow> Chess option list \<Rightarrow>
     Position list \<times> string set \<Rightarrow> Position list \<times> string set" where
  "scan_row getAvailableMoves myCamp i j [] acc = acc"
| "scan_row getAvailableMoves myCamp i j (chess # rest) acc =
     scan_row getAvailableMoves myCamp i (Suc j) rest
       (visit getAvailableMoves myCamp i j chess acc)"

fun scan_rows ::
  "(Position \<Rightarrow> Position list) \<Rightarrow> int \<Rightarrow> nat \<Rightarrow> Chessboard \<Rightarrow>
     Position list \<times> string set \<Rightarrow> Position list \<times> string set" where
  "scan_rows getAvailableMoves myCamp i [] acc = acc"
| "scan_rows getAvailableMoves myCamp i (row # rows) acc =
     scan_rows getAvailableMoves myCamp (Suc i) rows
       (scan_row getAvailableMoves myCamp i 0 row acc)"

definition getIsChecked ::
  "Chessboard \<Rightarrow> int \<Rightarrow> (Position \<Rightarrow> Position list) \<Rightarrow> Position list" where
  "getIsChecked chessboard myCamp getAvailableMoves =
     (let acc = scan_rows getAvailableMoves myCamp 0 chessboard ([], {})
      in filter (\<lambda>p. JSON_stringify p \<in> snd acc) (fst acc))"

subsection \<open>The board as a row-major list of squares\<close>

text \<open>
  The squares of row \<open>i\<close> from column \<open>j\<close> on, and of the rows from row \<open>i\<close> on,
  each paired with its content, in the order in which the two nested loops
  reach them. Rows may differ in length, as \<^verbatim>\<open>this.chessboard[i].length\<close>
  is read for each row.
\<close>

definition row_cells :: "nat \<Rightarrow> nat \<Rightarrow> Chess option list \<Rightarrow> (Position \<times> Chess option) list" where
  "row_cells i j row = map (\<lambda>(k, chess). ((int i, int k), chess)) (enumerate j row)"

definition cells_from :: "nat \<Rightarrow> Chessboard \<Rightarrow> (Position \<times> Chess option) list" where
  "cells_from i rows = concat (map (\<lambda>(k, row). row_cells k 0 row) (enumerate i rows))"

definition cells :: "Chessboard \<Rightarrow> (Position \<times> Chess option) list" where
  "cells chessboard = cells_from 0 chessboard"

definition royal_positions :: "int \<Rightarrow> (Position \<times> Chess option) list \<Rightarrow> Position list" where
  "royal_positions myCamp cs = map fst (filter (\<lambda>c. royal myCamp (snd c)) cs)"

text \<open>
  What the scan collects in \<^verbatim>\<open>opponentMoves\<close>: the destinations reported for
  every square that does not hold a piece of the caller, empty squares
  included.
\<close>

definition opponent_reach ::
  "(Position \<Rightarrow> Position list) \<Rightarrow> int \<Rightarrow> (Position \<times> Chess option) list \<Rightarrow> Position set" where
  "opponent_reach getAvailableMoves myCamp cs =
     \<Union> (set (map (\<lambda>c. set (getAvailableMoves (fst c))) (filter (\<lambda>c. \<not> own myCamp (snd c)) cs)))"

text \<open>
  The reach set in the words of the specification: the destinations reported
  for every \<^emph>\<open>occupied\<close> square that does not hold a piece of the caller.
\<close>

definition occupied_reach ::
  "(Position \<Rightarrow> Position list) \<Rightarrow> int \<Rightarrow> (Position \<times> Chess option) list \<Rightarrow> Position set" where
  "occupied_reach getAvailableMoves myCamp cs =
     \<Union> (set (map (\<lambda>c. set (getAvailableMoves (fst c)))
       (filter (\<lambda>c. snd c \<noteq> None \<and> \<not> own myCamp (snd c)) cs)))"

definition isChecked_spec ::
  "Chessboard \<Rightarrow> int \<Rightarrow> (Position \<Rightarrow> Position list) \<Rightarrow> Position list" where
  "isChecked_spec chessboard myCamp getAvailableMoves =
     filter (\<lambda>p. p \<in> occupied_reach getAvailableMoves myCamp (cells chessboard))
       (royal_positions myCamp (cells chessboard))"

definition row_major :: "Position \<Rightarrow> Position \<Rightarrow> bool" where
  "row_major p q = (fst p < fst q \<or> (fst p = fst q \<and> snd p < snd q))"

section \<open>The session protocol engine\<close>

subsection \<open>Values on the wire\<close>

text \<open>
  A payload typed \<^verbatim>\<open>unknown\<close> is a JSON value. An object is the list of its
  entries in the order \<^verbatim>\<open>Object.entries\<close> enumerates them, with distinct keys.
  Numbers are integers, as the numbers of the protocol are (a camp, a
  coordinate).
\<close>

datatype json =
    JNull
  | JBool bool
  | JNum int
  | JStr string
  | JArr "json list"
  | JObj "(string \<times> json) list"

text \<open>
  \<^verbatim>\<open>Response\<close> of \<^verbatim>\<open>types/game\<close>: a status and an optional payload. The status
  of a response built by \<^verbatim>\<open>onMessage\<close> is \<^verbatim>\<open>data.type\<close> as it was received, so it
  is kept as the value it is; \<open>None\<close> is \<^verbatim>\<open>undefined\<close>.
\<close>

record Response =
  status :: "json option"
  data :: "json option"

text \<open>
  What \<^verbatim>\<open>JSON.parse(rawData.toString())\<close> does: it throws (\<open>Malformed\<close>), it
  returns \<^verbatim>\<open>null\<close> (\<open>ParsedNull\<close>), or it returns another value. Of such a value
  \<^verbatim>\<open>onMessage\<close> reads the three properties \<^verbatim>\<open>data.type\<close>, \<^verbatim>\<open>data.data\<close> and
  \<^verbatim>\<open>data.id\<close> and nothing else, so the value is given by what the three reads
  yield, whatever their types: \<open>None\<close> is \<^verbatim>\<open>undefined\<close>, and a value that is not
  an object (a number, a string, a boolean, an array) has none of the three.
  The envelope the source declares, \<^verbatim>\<open>{ type: string; data?: unknown; id?:
  string }\<close>, is the case of a string for the type and of a string or nothing
  for the id.
\<close>

record Message =
  msg_type :: "json option"
  msg_data :: "json option"
  msg_id :: "json option"

datatype RawData = Malformed | ParsedNull | Parsed Message

record ExtensionInfo =
  key :: string
  name :: string
  author :: string
  version :: string

text \<open>JavaScript truthiness of an optional value (\<open>None\<close> is \<^verbatim>\<open>undefined\<close>).\<close>

fun truthy :: "json option \<Rightarrow> bool" where
  "truthy None = False"
| "truthy (Some JNull) = False"
| "truthy (Some (JBool b)) = b"
| "truthy (Some (JNum n)) = (n \<noteq> 0)"
| "truthy (Some (JStr s)) = (s \<noteq> [])"
| "truthy (Some (JArr xs)) = True"
| "truthy (Some (JObj fs)) = True"

text \<open>\<^verbatim>\<open>typeof v === 'object'\<close>, which also holds of \<^verbatim>\<open>null\<close> and of arrays.\<close>

fun typeof_object :: "json \<Rightarrow> bool" where
  "typeof_object JNull = True"
| "typeof_object (JArr xs) = True"
| "typeof_object (JObj fs) = True"
| "typeof_object v = False"

text \<open>Reading property \<open>k\<close> of a value; \<open>None\<close> is \<^verbatim>\<open>undefined\<close>.\<close>

fun field :: "string \<Rightarrow> json \<Rightarrow> json option" where
  "field k (JObj fs) = map_of fs k"
| "field k v = None"

text \<open>\<^verbatim>\<open>'chessboard' in v\<close> for a value \<open>v\<close> whose \<^verbatim>\<open>typeof\<close> is \<^verbatim>\<open>'object'\<close>.\<close>

definition in_chessboard :: "json \<Rightarrow> bool" where
  "in_chessboard v = (field ''chessboard'' v \<noteq> None)"

text \<open>
  The unchecked casts of the source, as readers of a payload at the asserted
  type; \<open>None\<close> when the payload does not have that type.
\<close>

fun as_string :: "json option \<Rightarrow> string option" where
  "as_string (Some (JStr s)) = Some s"
| "as_string v = None"

fun strings_of :: "(string \<times> json) list \<Rightarrow> (string \<times> string) list option" where
  "strings_of [] = Some []"
| "strings_of ((k, JStr s) # fs) = map_option ((#) (k, s)) (strings_of fs)"
| "strings_of (f # fs) = None"

fun as_record :: "json option \<Rightarrow> (string \<times> string) list option" where
  "as_record (Some (JObj fs)) = strings_of fs"
| "as_record v = None"

text \<open>
  \<^verbatim>\<open>data.data as { camp: number; mapData: GameMap }\<close>, together with the two
  fields of the map that \<^verbatim>\<open>onMessage\<close> reads: \<^verbatim>\<open>mapData.name\<close> (a string) and
  \<^verbatim>\<open>mapData.extensions\<close> (extension key to required version).
\<close>

definition as_handshake ::
  "json option \<Rightarrow> (int \<times> json \<times> string \<times> (string \<times> string) list) option" where
  "as_handshake d =
     (case d of
        Some (JObj fs) \<Rightarrow>
          (case (map_of fs ''camp'', map_of fs ''mapData'') of
             (Some (JNum n), Some md) \<Rightarrow>
               (case (as_string (field ''name'' md), as_record (field ''extensions'' md)) of
                  (Some nm, Some required) \<Rightarrow> Some (n, md, nm, required)
                | _ \<Rightarrow> None)
           | _ \<Rightarrow> None)
      | _ \<Rightarrow> None)"

definition positions_json :: "Position list \<Rightarrow> json" where
  "positions_json ps = JArr (map (\<lambda>p. JArr [JNum (fst p), JNum (snd p)]) ps)"

subsection \<open>String literals of the source\<close>

text \<open>
  Strings are byte lists; the literals that are not ASCII are given by their
  UTF-8 bytes, with the code points in the comment.
\<close>

definition err_title :: string where \<comment> \<open>U+9519 U+8BEF, the dialog title\<close>
  "err_title = [CHR 0xE9, CHR 0x94, CHR 0x99, CHR 0xE8, CHR 0xAF, CHR 0xAF]"

definition mismatch_message :: string where
  \<comment> \<open>U+5DF2 U+542F U+7528 U+6269 U+5C55 U+4E0E U+670D U+52A1 U+5668 U+4E0D U+5339 U+914D\<close>
  "mismatch_message =
     [CHR 0xE5, CHR 0xB7, CHR 0xB2, CHR 0xE5, CHR 0x90, CHR 0xAF, CHR 0xE7, CHR 0x94, CHR 0xA8,
      CHR 0xE6, CHR 0x89, CHR 0xA9, CHR 0xE5, CHR 0xB1, CHR 0x95, CHR 0xE4, CHR 0xB8, CHR 0x8E,
      CHR 0xE6, CHR 0x9C, CHR 0x8D, CHR 0xE5, CHR 0x8A, CHR 0xA1, CHR 0xE5, CHR 0x99, CHR 0xA8,
      CHR 0xE4, CHR 0xB8, CHR 0x8D, CHR 0xE5, CHR 0x8C, CHR 0xB9, CHR 0xE9, CHR 0x85, CHR 0x8D]"

definition required_header :: string where \<comment> \<open>U+6240 U+9700 U+6269 U+5C55 U+FF1A\<close>
  "required_header =
     [CHR 0xE6, CHR 0x89, CHR 0x80, CHR 0xE9, CHR 0x9C, CHR 0x80, CHR 0xE6, CHR 0x89, CHR 0xA9,
      CHR 0xE5, CHR 0xB1, CHR 0x95, CHR 0xEF, CHR 0xBC, CHR 0x9A]"

definition existing_header :: string where \<comment> \<open>U+5DF2 U+6709 U+6269 U+5C55 U+FF1A\<close>
  "existing_header =
     [CHR 0xE5, CHR 0xB7, CHR 0xB2, CHR 0xE6, CHR 0x9C, CHR 0x89, CHR 0xE6, CHR 0x89, CHR 0xA9,
      CHR 0xE5, CHR 0xB1, CHR 0x95, CHR 0xEF, CHR 0xBC, CHR 0x9A]"

definition none_marker :: string where \<comment> \<open>U+65E0, "none"\<close>
  "none_marker = [CHR 0xE6, CHR 0x97, CHR 0xA0]"

definition room_full :: string where \<comment> \<open>U+6E38 U+620F U+623F U+95F4 U+5DF2 U+6EE1\<close>
  "room_full =
     [CHR 0xE6, CHR 0xB8, CHR 0xB8, CHR 0xE6, CHR 0x88, CHR 0x8F, CHR 0xE6, CHR 0x88, CHR 0xBF,
      CHR 0xE9, CHR 0x97, CHR 0xB4, CHR 0xE5, CHR 0xB7, CHR 0xB2, CHR 0xE6, CHR 0xBB, CHR 0xA1]"

definition cannot_connect :: string where
  \<comment> \<open>U+65E0 U+6CD5 U+8FDE U+63A5 U+5230 U+670D U+52A1 U+5668\<close>
  "cannot_connect =
     [CHR 0xE6, CHR 0x97, CHR 0xA0, CHR 0xE6, CHR 0xB3, CHR 0x95, CHR 0xE8, CHR 0xBF, CHR 0x9E,
      CHR 0xE6, CHR 0x8E, CHR 0xA5, CHR 0xE5, CHR 0x88, CHR 0xB0, CHR 0xE6, CHR 0x9C, CHR 0x8D,
      CHR 0xE5, CHR 0x8A, CHR 0xA1, CHR 0xE5, CHR 0x99, CHR 0xA8]"

definition peer_disconnected :: string where
  \<comment> \<open>U+5BF9 U+65B9 U+5DF2 U+65AD U+5F00 U+8FDE U+63A5\<close>
  "peer_disconnected =
     [CHR 0xE5, CHR 0xAF, CHR 0xB9, CHR 0xE6, CHR 0x96, CHR 0xB9, CHR 0xE5, CHR 0xB7, CHR 0xB2,
      CHR 0xE6, CHR 0x96, CHR 0xAD, CHR 0xE5, CHR 0xBC, CHR 0x80, CHR 0xE8, CHR 0xBF, CHR 0x9E,
      CHR 0xE6, CHR 0x8E, CHR 0xA5]"

definition app_name :: string where \<comment> \<open>"USTC" U+68CB\<close>
  "app_name = ''USTC'' @ [CHR 0xE6, CHR 0xA3, CHR 0x8B]"

definition mode_label :: "bool \<Rightarrow> string" where
  \<comment> \<open>local: U+672C U+5730 U+6A21 U+5F0F; networked: U+8054 U+673A U+6A21 U+5F0F\<close>
  "mode_label local =
     (if local
      then [CHR 0xE6, CHR 0x9C, CHR 0xAC, CHR 0xE5, CHR 0x9C, CHR 0xB0, CHR 0xE6, CHR 0xA8, CHR 0xA1,
            CHR 0xE5, CHR 0xBC, CHR 0x8F]
      else [CHR 0xE8, CHR 0x81, CHR 0x94, CHR 0xE6, CHR 0x9C, CHR 0xBA, CHR 0xE6, CHR 0xA8, CHR 0xA1,
            CHR 0xE5, CHR 0xBC, CHR 0x8F])"

definition newline :: string where
  "newline = [CHR 0x0A]"

definition line_sep :: string where \<comment> \<open>a line break and two spaces\<close>
  "line_sep = newline @ ''  ''"

definition timeout :: nat where
  "timeout = 10000"

subsection \<open>The state of a \<^verbatim>\<open>GameClient\<close>\<close>

text \<open>
  Closures are data: the function stored in \<^verbatim>\<open>messageHandlers\<close> by
  \<^verbatim>\<open>contactToServer\<close> captures its \<^verbatim>\<open>messageId\<close> and the \<^verbatim>\<open>resolve\<close> of the
  promise it belongs to, and so does the callback handed to \<^verbatim>\<open>setTimeout\<close>.
  Promises are numbered in the order in which \<^verbatim>\<open>contactToServer\<close> creates
  them.
\<close>

datatype Handler = Handler string nat

datatype Callback =
    RequestTimeout string nat  \<comment> \<open>the timer of \<^verbatim>\<open>contactToServer\<close>\<close>
  | DelayedClose string        \<comment> \<open>\<^verbatim>\<open>() => this.close(content)\<close>\<close>
  | HandshakeTimeout           \<comment> \<open>the timer of the constructor\<close>

text \<open>
  Everything a client does to the outside, in the order in which it does it.
  \<open>Resolve p r\<close> is a call of the \<^verbatim>\<open>resolve\<close> function of promise \<open>p\<close>;
  \<open>CallClose\<close> is a call of the \<^verbatim>\<open>close\<close> function handed to the
  constructor; \<open>ShowErrorBox\<close> is a call of \<^verbatim>\<open>dialog.showErrorBox\<close> with the
  title and the content handed to it; \<open>Rejected\<close> marks a run of \<^verbatim>\<open>onMessage\<close>
  that ends in a \<^verbatim>\<open>TypeError\<close> or leaves the declared types, because the value
  received is not of the type the source casts it to.
\<close>

datatype Effect =
    WsSend json
  | WsClose "int option"
  | ShowErrorBox string json
  | ShowMessageBox string string string string
  | SetTitle string
  | WebContentsSend string "json option"
  | ConsoleError string
  | SetTimeout Callback nat
  | Resolve nat Response
  | CallClose
  | Rejected

text \<open>
  The fields of \<^verbatim>\<open>GameClient\<close>, with those it inherits from \<^verbatim>\<open>GameData\<close>
  (\<^verbatim>\<open>mapData\<close>, \<^verbatim>\<open>chessboard\<close>, \<^verbatim>\<open>extensions\<close>). The board snapshot is kept as
  the payload value that was assigned to it.
\<close>

record GameClient =
  window_id :: nat
  windowDestroyed :: bool
  isLocal :: bool
  isConnectSuccess :: bool
  messageHandlers :: "string \<rightharpoonup> Handler"
  camp :: int
  isGameEnd :: bool
  mapData :: "json option"
  chessboard :: json
  extensions :: "ExtensionInfo list"
  nextPromise :: nat
  effects :: "Effect list"

text \<open>
  What the sources at hand do not contain: extension resolution and loading
  (\<^verbatim>\<open>autoGetNeededExtensions\<close>, \<^verbatim>\<open>loadExtensions\<close>, giving the new value of
  \<^verbatim>\<open>this.extensions\<close> from the old one and the required extensions), the
  compatibility check \<^verbatim>\<open>checkExtensions\<close>, the move generator of
  \<^verbatim>\<open>GameData\<close>, and the readings of a payload as a board and as a position.
\<close>

record Collaborators =
  loadExtensions :: "ExtensionInfo list \<Rightarrow> (string \<times> string) list \<Rightarrow> ExtensionInfo list"
  checkExtensions :: "ExtensionInfo list \<Rightarrow> (string \<times> string) list \<Rightarrow> bool"
  getAvailableMoves :: "GameClient \<Rightarrow> Position \<Rightarrow> Position list"
  as_Chessboard :: "json \<Rightarrow> Chessboard"
  as_Position :: "json option \<Rightarrow> Position"

definition emit :: "Effect list \<Rightarrow> GameClient \<Rightarrow> GameClient" where
  "emit es c = c\<lparr>effects := effects c @ es\<rparr>"

definition new_GameClient :: "nat \<Rightarrow> bool \<Rightarrow> GameClient" where
  "new_GameClient wid local =
     \<lparr>window_id = wid, windowDestroyed = False, isLocal = local, isConnectSuccess = False,
      messageHandlers = Map.empty, camp = 0, isGameEnd = False, mapData = None,
      chessboard = JArr [], extensions = [], nextPromise = 0,
      effects = [SetTitle (app_name @ '' - '' @ mode_label local),
                 SetTimeout HandshakeTimeout timeout]\<rparr>"

subsection \<open>\<^verbatim>\<open>this.close\<close> and the timers\<close>

text \<open>
  \<^verbatim>\<open>this.close(content)\<close>. The content is declared a string, but
  \<^verbatim>\<open>onMessage\<close> hands over whatever reason it received; the dialog is guarded
  by \<^verbatim>\<open>if (content)\<close>, the truthiness of the value.
\<close>

definition GameClient_close :: "json option \<Rightarrow> GameClient \<Rightarrow> GameClient" where
  "GameClient_close content c =
     emit ((if isConnectSuccess c then [WsClose None] else []) @
           (case content of
              None \<Rightarrow> []
            | Some v \<Rightarrow> if truthy (Some v) then [ShowErrorBox err_title v] else []) @
           [CallClose]) c"

definition timeout_response :: Response where
  "timeout_response =
     \<lparr>status = Some (JStr ''error''), data = Some (JStr ''Timeout waiting for response.'')\<rparr>"

definition send_failure :: Response where
  "send_failure =
     \<lparr>status = Some (JStr ''error''), data = Some (JStr ''Failed to send message.'')\<rparr>"

fun fire :: "Callback \<Rightarrow> GameClient \<Rightarrow> GameClient" where
  "fire (RequestTimeout messageId p) c =
     (if messageHandlers c messageId \<noteq> None
      then emit [Resolve p timeout_response]
             (c\<lparr>messageHandlers := (messageHandlers c)(messageId := None)\<rparr>)
      else c)"
| "fire (DelayedClose content) c = GameClient_close (Some (JStr content)) c"
| "fire HandshakeTimeout c = (if \<not> isConnectSuccess c then emit [WsClose (Some 4000)] c else c)"

text \<open>The \<^verbatim>\<open>'error'\<close> and \<^verbatim>\<open>'close'\<close> listeners of the socket.\<close>

definition ws_on_error :: "GameClient \<Rightarrow> GameClient" where
  "ws_on_error c = emit [SetTimeout (DelayedClose cannot_connect) 500] c"

definition ws_on_close :: "int \<Rightarrow> GameClient \<Rightarrow> GameClient" where
  "ws_on_close code c =
     (let c1 = c\<lparr>isConnectSuccess := False\<rparr>
      in if code = 4004
         then GameClient_close (Some (JStr (if isLocal c1 then [] else peer_disconnected))) c1
         else c1)"

subsection \<open>\<^verbatim>\<open>GameClient.contactToServer\<close>\<close>

text \<open>
  The three ways through the \<^verbatim>\<open>try\<close> block: \<^verbatim>\<open>JSON.stringify\<close> throws (on a
  value handed over by the window that JSON cannot render), \<^verbatim>\<open>this.ws.send\<close>
  throws (as it does while the socket is still connecting), or neither does.
\<close>

datatype Transmission = StringifyThrows | SendThrows | Transmitted

definition request :: "string \<Rightarrow> json option \<Rightarrow> string \<Rightarrow> json" where
  "request ty dat messageId =
     JObj ([(''type'', JStr ty)] @
           (case dat of None \<Rightarrow> [] | Some d \<Rightarrow> [(''data'', d)]) @
           [(''id'', JStr messageId)])"

text \<open>
  The handler registered under \<^verbatim>\<open>messageId\<close>, applied to a response.
\<close>

fun call :: "Handler \<Rightarrow> Response \<Rightarrow> GameClient \<Rightarrow> GameClient" where
  "call (Handler messageId p) response c =
     emit [Resolve p response] (c\<lparr>messageHandlers := (messageHandlers c)(messageId := None)\<rparr>)"

text \<open>
  \<^verbatim>\<open>messageId\<close> is the value of
  \<^verbatim>\<open>Math.random().toString(36).substring(2)\<close>; the result is the new state and
  the number of the promise returned.
\<close>

definition contactToServer ::
  "Transmission \<Rightarrow> string \<Rightarrow> string \<Rightarrow> json option \<Rightarrow> GameClient \<Rightarrow> GameClient \<times> nat" where
  "contactToServer t messageId ty dat c =
     (let p = nextPromise c;
          c0 = c\<lparr>nextPromise := Suc p\<rparr>;
          registered = c0\<lparr>messageHandlers := (messageHandlers c0)(messageId \<mapsto> Handler messageId p)\<rparr>;
          c1 = (case t of
                  StringifyThrows \<Rightarrow> emit [Resolve p send_failure] c0
                | SendThrows \<Rightarrow> emit [Resolve p send_failure] registered
                | Transmitted \<Rightarrow> emit [WsSend (request ty dat messageId)] registered)
      in (emit [SetTimeout (RequestTimeout messageId p) timeout] c1, p))"

text \<open>The responses handed to promise \<open>p\<close>, in order, among a list of effects.\<close>

fun resolutions :: "nat \<Rightarrow> Effect list \<Rightarrow> Response list" where
  "resolutions p [] = []"
| "resolutions p (Resolve q r # es) = (if q = p then r # resolutions p es else resolutions p es)"
| "resolutions p (e # es) = resolutions p es"

subsection \<open>\<^verbatim>\<open>GameClient.onMessage\<close>\<close>

text \<open>\<^verbatim>\<open>Array.prototype.join\<close> on strings.\<close>

fun join :: "string \<Rightarrow> string list \<Rightarrow> string" where
  "join sep [] = []"
| "join sep [x] = x"
| "join sep (x # y # ys) = x @ sep @ join sep (y # ys)"

definition requiredExtensions :: "(string \<times> string) list \<Rightarrow> string" where
  "requiredExtensions required = join line_sep (map (\<lambda>(k, v). k @ ''@'' @ v) required)"

text \<open>\<^verbatim>\<open>join(...) || none_marker\<close>: the marker replaces an empty string.\<close>

definition existingExtensions :: "ExtensionInfo list \<Rightarrow> string" where
  "existingExtensions exts =
     (let s = join line_sep (map (\<lambda>ext. key ext @ ''@'' @ version ext) exts)
      in if s \<noteq> [] then s else none_marker)"

definition detail :: "(string \<times> string) list \<Rightarrow> ExtensionInfo list \<Rightarrow> string" where
  "detail required exts =
     required_header @ line_sep @ requiredExtensions required @ newline @
     existing_header @ line_sep @ existingExtensions exts"

text \<open>
  The \<^verbatim>\<open>'connect-success'\<close> case. The two \<^verbatim>\<open>await\<close>s are taken in one step:
  no other event is interleaved. A payload that is not of the type the source
  casts it to ends the run as \<open>Rejected\<close>, after the connection flag is set.
\<close>

definition on_connect_success :: "Collaborators \<Rightarrow> Message \<Rightarrow> GameClient \<Rightarrow> GameClient" where
  "on_connect_success col m c =
     (let c1 = c\<lparr>isConnectSuccess := True\<rparr>
      in case as_handshake (msg_data m) of
           None \<Rightarrow> emit [Rejected] c1
         | Some (camp', mapData', name', required) \<Rightarrow>
             (let c2 = c1\<lparr>mapData := Some mapData',
                          extensions := loadExtensions col (extensions c1) required\<rparr>
              in if \<not> (isLocal c2 \<or> checkExtensions col (extensions c2) required)
                 then GameClient_close None
                        (emit [ShowMessageBox ''error'' err_title mismatch_message
                                 (detail required (extensions c2))] c2)
                 else emit [WsSend (JObj [(''type'', JStr ''prepared'')]),
                            SetTitle (name' @ '' - '' @ mode_label (isLocal c2)),
                            WebContentsSend ''connect-success'' None]
                        (c2\<lparr>camp := camp'\<rparr>)))"

text \<open>
  The \<^verbatim>\<open>'connect-fail'\<close> case: \<^verbatim>\<open>this.close(data.data as string)\<close> hands the
  reason over as it is.
\<close>

definition on_connect_fail :: "Message \<Rightarrow> GameClient \<Rightarrow> GameClient" where
  "on_connect_fail m c =
     (if msg_data m = Some (JStr ''too-many-clients'')
      then emit [SetTimeout (DelayedClose room_full) 500] c
      else GameClient_close (msg_data m) c)"

text \<open>The \<^verbatim>\<open>switch (data.type)\<close> on a message that is not a response.\<close>

definition push :: "Collaborators \<Rightarrow> Message \<Rightarrow> GameClient \<Rightarrow> GameClient" where
  "push col m c =
     (if msg_type m = Some (JStr ''connect-success'') then on_connect_success col m c
      else if msg_type m = Some (JStr ''connect-fail'') then on_connect_fail m c
      else if msg_type m = Some (JStr ''game-start'')
        then emit [WebContentsSend ''game-start'' None] c
      else if msg_type m = Some (JStr ''change-turn'')
        then emit [WebContentsSend ''change-turn'' None] c
      else if msg_type m = Some (JStr ''game-end'')
        then emit [WebContentsSend ''game-end'' (msg_data m)] (c\<lparr>isGameEnd := True\<rparr>)
      else emit [ConsoleError ''Unknown Response:''] c)"

text \<open>
  \<^verbatim>\<open>this.messageHandlers.get(data.id)\<close> and \<^verbatim>\<open>this.messageHandlers.has(data.id)\<close>:
  the keys of the map are strings, so that only a string is ever found.
\<close>

definition get_handler :: "GameClient \<Rightarrow> Message \<Rightarrow> Handler option" where
  "get_handler c m = (case msg_id m of Some (JStr i) \<Rightarrow> messageHandlers c i | _ \<Rightarrow> None)"

text \<open>
  \<^verbatim>\<open>data.id && this.messageHandlers.has(data.id)\<close>: the id is truthy and is a
  key of the map, that is, it is a string other than the empty one under
  which a handler is registered.
\<close>

definition is_response :: "GameClient \<Rightarrow> Message \<Rightarrow> bool" where
  "is_response c m = (truthy (msg_id m) \<and> get_handler c m \<noteq> None)"

text \<open>
  On \<^verbatim>\<open>null\<close> the read of \<^verbatim>\<open>data.id\<close> throws a \<^verbatim>\<open>TypeError\<close>: the run ends there,
  with nothing logged by the client.
\<close>

definition onMessage :: "Collaborators \<Rightarrow> RawData \<Rightarrow> GameClient \<Rightarrow> GameClient" where
  "onMessage col rawData c =
     (case rawData of
        Malformed \<Rightarrow> emit [ConsoleError ''Invalid Response:''] c
      | ParsedNull \<Rightarrow> emit [Rejected] c
      | Parsed m \<Rightarrow>
          if is_response c m
          then (case get_handler c m of
                  Some handler \<Rightarrow> call handler \<lparr>status = msg_type m, data = msg_data m\<rparr> c
                | None \<Rightarrow> c)
          else push col m c)"

subsection \<open>\<^verbatim>\<open>GameClient.contact\<close>\<close>

text \<open>
  \<^verbatim>\<open>contact\<close> either returns at once or awaits the promise of
  \<^verbatim>\<open>contactToServer\<close>; \<open>contact_resume\<close> is the code after the \<^verbatim>\<open>await\<close>,
  run on the value the promise was resolved with.
\<close>

datatype Contact = Returned Response | Awaiting nat

definition contact ::
  "Collaborators \<Rightarrow> Transmission \<Rightarrow> string \<Rightarrow> string \<Rightarrow> json option \<Rightarrow> GameClient \<Rightarrow>
     GameClient \<times> Contact" where
  "contact col t messageId ty dat c =
     (if ty = ''get-info'' then
        (c, Returned
          (case mapData c of
             Some md \<Rightarrow>
               if camp c \<noteq> 0 \<and> truthy (Some md)
               then \<lparr>status = Some (JStr ''success''),
                     data = Some (JObj [(''camp'', JNum (camp c)), (''mapData'', md)])\<rparr>
               else \<lparr>status = Some (JStr ''error''), data = Some (JStr ''Fail to get info.'')\<rparr>
           | None \<Rightarrow> \<lparr>status = Some (JStr ''error''), data = Some (JStr ''Fail to get info.'')\<rparr>))
      else if ty = ''get-state'' then
        (let r = contactToServer t messageId ty dat c in (fst r, Awaiting (snd r)))
      else if ty = ''get-available-moves'' then
        (c, Returned \<lparr>status = Some (JStr ''success''),
                      data = Some (positions_json (getAvailableMoves col c (as_Position col dat)))\<rparr>)
      else if ty = ''get-is-checked'' then
        (c, Returned \<lparr>status = Some (JStr ''success''),
                      data = Some (positions_json
                        (getIsChecked (as_Chessboard col (chessboard c)) (camp c)
                           (getAvailableMoves col c)))\<rparr>)
      else if ty = ''move'' then
        (let r = contactToServer t messageId ty dat c in (fst r, Awaiting (snd r)))
      else (c, Returned \<lparr>status = Some (JStr ''error''), data = Some (JStr ''Unknown type.'')\<rparr>))"

definition contact_resume :: "string \<Rightarrow> Response \<Rightarrow> GameClient \<Rightarrow> GameClient \<times> Response" where
  "contact_resume ty res c =
     (if ty = ''get-state'' then
        (if status res = Some (JStr ''success'') then
           (case data res of
              Some d \<Rightarrow>
                if truthy (Some d) \<and> typeof_object d \<and> in_chessboard d
                then (case field ''chessboard'' d of
                        Some board \<Rightarrow> (c\<lparr>chessboard := board\<rparr>, res)
                      | None \<Rightarrow> (c, res))
                else (c, res)
            | None \<Rightarrow> (c, res))
         else (c, res))
      else (c, res))"

subsection \<open>\<^verbatim>\<open>createClients\<close>: the coordinator\<close>

text \<open>
  The variables captured by the closures of \<^verbatim>\<open>createClients\<close>, the
  registration of the \<^verbatim>\<open>'contact'\<close> handler with \<^verbatim>\<open>ipcMain\<close>, and the number of
  calls of the \<^verbatim>\<open>stopGame\<close> callback. The ids of the windows are those the
  window system hands out, one per client.
\<close>

record Coordinator =
  isClosed :: bool
  gameClients :: "GameClient list"
  contactHandler :: bool
  stopGame_calls :: nat

definition createClients :: "nat list \<Rightarrow> bool \<Rightarrow> Coordinator" where
  "createClients ids local =
     \<lparr>isClosed = False, gameClients = map (\<lambda>wid. new_GameClient wid local) ids,
      contactHandler = True, stopGame_calls = 0\<rparr>"

definition createClients_close :: "Coordinator \<Rightarrow> Coordinator" where
  "createClients_close s =
     (if isClosed s then s
      else s\<lparr>isClosed := True,
             gameClients := map (\<lambda>c. c\<lparr>windowDestroyed := True\<rparr>) (gameClients s),
             contactHandler := False,
             stopGame_calls := Suc (stopGame_calls s)\<rparr>)"

text \<open>
  An \<^verbatim>\<open>invoke\<close> of the \<^verbatim>\<open>'contact'\<close> channel by the window \<open>sender\<close>. Without a
  registered handler the invocation fails; otherwise the handler looks for the
  first client of that id and throws when there is none.
\<close>

datatype IpcError = NoHandlerRegistered | NotAGameWindow

fun find_client :: "nat \<Rightarrow> nat \<Rightarrow> GameClient list \<Rightarrow> nat option" where
  "find_client sender k [] = None"
| "find_client sender k (c # cs) =
     (if window_id c = sender then Some k else find_client sender (Suc k) cs)"

definition invoke_contact ::
  "Collaborators \<Rightarrow> Transmission \<Rightarrow> string \<Rightarrow> nat \<Rightarrow> string \<Rightarrow> json option \<Rightarrow> Coordinator \<Rightarrow>
     IpcError + Coordinator \<times> Contact" where
  "invoke_contact col t messageId sender ty dat s =
     (if \<not> contactHandler s then Inl NoHandlerRegistered
      else (case find_client sender 0 (gameClients s) of
              None \<Rightarrow> Inl NotAGameWindow
            | Some k \<Rightarrow>
                (let r = contact col t messageId ty dat (gameClients s ! k)
                 in Inr (s\<lparr>gameClients := (gameClients s)[k := fst r]\<rparr>, snd r))))"

text \<open>
  A client calling its \<^verbatim>\<open>this.close\<close>, whose last step is the shared
  \<^verbatim>\<open>close\<close>; and the \<^verbatim>\<open>'close'\<close> listener of a window, with the answer of the
  confirmation prompt.
\<close>

definition session_close :: "nat \<Rightarrow> json option \<Rightarrow> Coordinator \<Rightarrow> Coordinator" where
  "session_close k content s =
     createClients_close
       (s\<lparr>gameClients := (gameClients s)[k := GameClient_close content (gameClients s ! k)]\<rparr>)"

definition window_on_close :: "nat \<Rightarrow> bool \<Rightarrow> Coordinator \<Rightarrow> Coordinator" where
  "window_on_close k confirmed s =
     (if isGameEnd (gameClients s ! k) \<or> confirmed then session_close k None s else s)"

subsection \<open>Schedules of one request\<close>

text \<open>
  What can happen to a client while the request issued under \<open>messageId\<close> with
  promise \<open>p\<close> is outstanding: a message arrives, or the timer of the request
  fires. A schedule is any list of such events, run in order.
\<close>

datatype Event = Inbound RawData | Expire

fun run :: "Collaborators \<Rightarrow> string \<Rightarrow> nat \<Rightarrow> Event list \<Rightarrow> GameClient \<Rightarrow> GameClient" where
  "run col messageId p [] c = c"
| "run col messageId p (Inbound rawData # evs) c =
     run col messageId p evs (onMessage col rawData c)"
| "run col messageId p (Expire # evs) c =
     run col messageId p evs (fire (RequestTimeout messageId p) c)"

text \<open>
  Every handler is stored under the id it captured; and it belongs to a
  promise that has been created.
\<close>

definition keyed :: "GameClient \<Rightarrow> bool" where
  "keyed c = (\<forall>i j q. messageHandlers c i = Some (Handler j q) \<longrightarrow> j = i)"

definition created :: "GameClient \<Rightarrow> bool" where
  "created c = (\<forall>i j q. messageHandlers c i = Some (Handler j q) \<longrightarrow> q < nextPromise c)"

text \<open>
  The request of promise \<open>p\<close> is pending under \<open>messageId\<close>, and nowhere else;
  or no handler of \<open>p\<close> is left and \<open>messageId\<close> is free.
\<close>

definition pending :: "string \<Rightarrow> nat \<Rightarrow> GameClient \<Rightarrow> bool" where
  "pending messageId p c =
     (messageHandlers c messageId = Some (Handler messageId p) \<and>
      (\<forall>i j. messageHandlers c i = Some (Handler j p) \<longrightarrow> i = messageId))"

definition gone :: "string \<Rightarrow> nat \<Rightarrow> GameClient \<Rightarrow> bool" where
  "gone messageId p c =
     (messageHandlers c messageId = None \<and>
      (\<forall>i j. messageHandlers c i \<noteq> Some (Handler j p)))"

subsection \<open>A concrete environment\<close>

text \<open>
  Modelled from the spec: \<^verbatim>\<open>checkExtensions\<close> of \<^verbatim>\<open>./main\<close> is not among the
  sources at hand. By the specification, negotiation passes if and only if
  every required key is present in the available list with exactly the
  required version.
\<close>

definition checkExtensions_spec :: "ExtensionInfo list \<Rightarrow> (string \<times> string) list \<Rightarrow> bool" where
  "checkExtensions_spec available required =
     list_all (\<lambda>(k, v). list_ex (\<lambda>ext. key ext = k \<and> version ext = v) available) required"

text \<open>
  An environment in which loading makes exactly the extensions \<open>available\<close>
  present, whatever is required, and no piece can move.
\<close>

definition environment :: "ExtensionInfo list \<Rightarrow> Collaborators" where
  "environment available =
     \<lparr>loadExtensions = (\<lambda>old required. available),
      checkExtensions = checkExtensions_spec,
      getAvailableMoves = (\<lambda>c p. []),
      as_Chessboard = (\<lambda>v. []),
      as_Position = (\<lambda>v. (0, 0))\<rparr>"

text \<open>A handshake payload: camp \<open>n\<close> and a map with a name and required extensions.\<close>

definition handshake :: "int \<Rightarrow> string \<Rightarrow> (string \<times> string) list \<Rightarrow> Message" where
  "handshake n nm required =
     \<lparr>msg_type = Some (JStr ''connect-success''),
      msg_data = Some (JObj [(''camp'', JNum n),
                   (''mapData'', JObj [(''name'', JStr nm),
                      (''extensions'', JObj (map (\<lambda>(k, v). (k, JStr v)) required))])]),
      msg_id = None\<rparr>"

section \<open>Properties of the check detector\<close>

subsection \<open>Decimal rendering is injective\<close>

lemma digit_inj: "a < 10 \<Longrightarrow> b < 10 \<Longrightarrow> digit a = digit b \<Longrightarrow> a = b"
  unfolding digit_def by (simp split: if_splits) arith

lemma digit_not_sep: "digit d \<noteq> CHR '','' \<and> digit d \<noteq> CHR ''-''"
  unfolding digit_def by simp

lemma show_nat_nonempty: "show_nat n \<noteq> []"
  by (subst show_nat.simps) simp

lemma show_nat_chars: "c \<in> set (show_nat n) \<Longrightarrow> c \<noteq> CHR '','' \<and> c \<noteq> CHR ''-''"
proof (induction n rule: show_nat.induct)
  case (1 n)
  show ?case
  proof (cases "n < 10")
    case True
    with "1.prems" show ?thesis
      by (subst (asm) show_nat.simps) (simp add: digit_not_sep)
  next
    case False
    with "1.prems" "1.IH" show ?thesis
      by (subst (asm) show_nat.simps) (auto simp: digit_not_sep)
  qed
qed

lemma show_nat_inj: "show_nat m = show_nat n \<Longrightarrow> m = n"
proof (induction m arbitrary: n rule: show_nat.induct)
  case (1 m)
  show ?case
  proof (cases "m < 10")
    case m: True
    show ?thesis
    proof (cases "n < 10")
      case True
      with m "1.prems" show ?thesis
        by (subst (asm) (1 2) show_nat.simps) (simp add: digit_inj)
    next
      case False
      with m "1.prems" show_nat_nonempty [of "n div 10"] show ?thesis
        by (subst (asm) (1 2) show_nat.simps) simp
    qed
  next
    case m: False
    show ?thesis
    proof (cases "n < 10")
      case True
      with m "1.prems" show_nat_nonempty [of "m div 10"] show ?thesis
        by (subst (asm) (1 2) show_nat.simps) simp
    next
      case False
      from m False "1.prems"
      have "show_nat (m div 10) @ [digit (m mod 10)] = show_nat (n div 10) @ [digit (n mod 10)]"
        by (subst (asm) (1 2) show_nat.simps) simp
      then have "show_nat (m div 10) = show_nat (n div 10)"
        and d: "digit (m mod 10) = digit (n mod 10)"
        by simp_all
      with m "1.IH" have q: "m div 10 = n div 10" by simp
      from d have r: "m mod 10 = n mod 10" by (intro digit_inj) simp_all
      from q r show ?thesis by (metis div_mult_mod_eq)
    qed
  qed
qed

lemma show_int_chars: "CHR '','' \<notin> set (show_int i)"
proof
  assume "CHR '','' \<in> set (show_int i)"
  then have "CHR '','' \<in> set (show_nat (nat (- i))) \<or> CHR '','' \<in> set (show_nat (nat i))"
    by (simp add: show_int_def split: if_splits)
  then show False using show_nat_chars by blast
qed

lemma show_nat_hd: "hd (show_nat n) \<noteq> CHR ''-''"
  using show_nat_chars [of "hd (show_nat n)" n] show_nat_nonempty [of n] by simp

lemma show_int_inj: "show_int a = show_int b \<Longrightarrow> a = b"
proof (cases "a < 0"; cases "b < 0")
  assume "a < 0" "b < 0" and "show_int a = show_int b"
  then have "nat (- a) = nat (- b)" by (simp add: show_int_def show_nat_inj)
  with \<open>a < 0\<close> \<open>b < 0\<close> show ?thesis by simp
next
  assume "a < 0" "\<not> b < 0" and "show_int a = show_int b"
  then have "show_nat (nat b) = CHR ''-'' # show_nat (nat (- a))" by (simp add: show_int_def)
  then have "hd (show_nat (nat b)) = CHR ''-''" by simp
  with show_nat_hd show ?thesis by blast
next
  assume "\<not> a < 0" "b < 0" and "show_int a = show_int b"
  then have "hd (show_nat (nat a)) = CHR ''-''" by (simp add: show_int_def)
  with show_nat_hd show ?thesis by blast
next
  assume "\<not> a < 0" "\<not> b < 0" and "show_int a = show_int b"
  then have "nat a = nat b" by (simp add: show_int_def show_nat_inj)
  with \<open>\<not> a < 0\<close> \<open>\<not> b < 0\<close> show ?thesis by simp
qed

lemma JSON_stringify_eq_iff: "JSON_stringify p = JSON_stringify q \<longleftrightarrow> p = q"
proof
  assume "JSON_stringify p = JSON_stringify q"
  then have eq: "show_int (fst p) @ CHR '','' # (show_int (snd p) @ '']'') =
             show_int (fst q) @ CHR '','' # (show_int (snd q) @ '']'')"
    unfolding JSON_stringify_def by (simp only: append.simps list.inject simp_thms)
  have "CHR '','' \<notin> set (show_int (snd p) @ '']'')"
    using show_int_chars [of "snd p"] by simp
  from append_Cons_eq_iff [OF show_int_chars this] eq
  have "show_int (fst p) = show_int (fst q)" and "show_int (snd p) = show_int (snd q)"
    by simp_all
  then have "fst p = fst q" and "snd p = snd q" by (simp_all add: show_int_inj)
  then show "p = q" by (rule prod_eqI)
qed simp

lemma JSON_stringify_mem: "JSON_stringify p \<in> JSON_stringify ` S \<longleftrightarrow> p \<in> S"
  by (auto simp: JSON_stringify_eq_iff)

subsection \<open>The scan computes the royal positions and the reach set\<close>

lemma add_all_eq: "add_all moves s = s \<union> JSON_stringify ` set moves"
  unfolding add_all_def by (induction moves arbitrary: s) auto

lemma royal_positions_append:
  "royal_positions c (xs @ ys) = royal_positions c xs @ royal_positions c ys"
  by (simp add: royal_positions_def)

lemma opponent_reach_append:
  "opponent_reach g c (xs @ ys) = opponent_reach g c xs \<union> opponent_reach g c ys"
  by (simp add: opponent_reach_def)

lemma row_cells_Cons:
  "row_cells i j (chess # rest) = ((int i, int j), chess) # row_cells i (Suc j) rest"
  by (simp add: row_cells_def)

lemma visit_eq:
  "visit g c i j chess acc =
     (fst acc @ royal_positions c [((int i, int j), chess)],
      snd acc \<union> JSON_stringify ` opponent_reach g c [((int i, int j), chess)])"
  by (cases chess)
     (auto simp: visit_def own_def royal_def royal_positions_def opponent_reach_def add_all_eq)

lemma scan_row_eq:
  "scan_row g c i j row acc =
     (fst acc @ royal_positions c (row_cells i j row),
      snd acc \<union> JSON_stringify ` opponent_reach g c (row_cells i j row))"
proof (induction row arbitrary: j acc)
  case Nil
  show ?case by (simp add: row_cells_def royal_positions_def opponent_reach_def)
next
  case (Cons chess rest)
  have "row_cells i j (chess # rest) = [((int i, int j), chess)] @ row_cells i (Suc j) rest"
    by (simp add: row_cells_Cons)
  then show ?case
    by (simp only: scan_row.simps Cons.IH visit_eq fst_conv snd_conv
          royal_positions_append opponent_reach_append image_Un Un_assoc append_assoc)
qed

lemma cells_from_Cons:
  "cells_from i (row # rows) = row_cells i 0 row @ cells_from (Suc i) rows"
  by (simp add: cells_from_def)

lemma scan_rows_eq:
  "scan_rows g c i rows acc =
     (fst acc @ royal_positions c (cells_from i rows),
      snd acc \<union> JSON_stringify ` opponent_reach g c (cells_from i rows))"
proof (induction rows arbitrary: i acc)
  case Nil
  show ?case by (simp add: cells_from_def royal_positions_def opponent_reach_def)
next
  case (Cons row rows)
  show ?case
    by (simp only: scan_rows.simps Cons.IH scan_row_eq cells_from_Cons fst_conv snd_conv
          royal_positions_append opponent_reach_append image_Un Un_assoc append_assoc)
qed

lemma getIsChecked_eq:
  "getIsChecked board myCamp g =
     filter (\<lambda>p. p \<in> opponent_reach g myCamp (cells board))
       (royal_positions myCamp (cells board))"
  by (simp add: getIsChecked_def Let_def scan_rows_eq cells_def JSON_stringify_mem)

subsection \<open>Squares by index, and their order\<close>

lemma row_cells_iff:
  "(p, sq) \<in> set (row_cells i j0 row) \<longleftrightarrow>
     (\<exists>j < length row. p = (int i, int (j0 + j)) \<and> sq = row ! j)"
proof -
  have "(p, sq) \<in> set (row_cells i j0 row) \<longleftrightarrow>
        (\<exists>k. (k, sq) \<in> set (enumerate j0 row) \<and> p = (int i, int k))"
    by (auto simp: row_cells_def)
  also have "\<dots> \<longleftrightarrow> (\<exists>j < length row. p = (int i, int (j0 + j)) \<and> sq = row ! j)"
  proof
    assume "\<exists>k. (k, sq) \<in> set (enumerate j0 row) \<and> p = (int i, int k)"
    then obtain k where k: "(k, sq) \<in> set (enumerate j0 row)" "p = (int i, int k)" by blast
    then have "j0 \<le> k" "k - j0 < length row" "row ! (k - j0) = sq"
      by (auto simp: in_set_enumerate_eq)
    with k show "\<exists>j < length row. p = (int i, int (j0 + j)) \<and> sq = row ! j"
      by (intro exI [of _ "k - j0"]) simp
  next
    assume "\<exists>j < length row. p = (int i, int (j0 + j)) \<and> sq = row ! j"
    then obtain j where "j < length row" "p = (int i, int (j0 + j))" "sq = row ! j" by blast
    then have "(j0 + j, sq) \<in> set (enumerate j0 row)" by (simp add: in_set_enumerate_eq)
    with \<open>p = (int i, int (j0 + j))\<close>
    show "\<exists>k. (k, sq) \<in> set (enumerate j0 row) \<and> p = (int i, int k)"
      by blast
  qed
  finally show ?thesis .
qed

lemma cells_from_iff:
  "(p, sq) \<in> set (cells_from i0 rows) \<longleftrightarrow>
     (\<exists>i < length rows. \<exists>j < length (rows ! i). p = (int (i0 + i), int j) \<and> sq = rows ! i ! j)"
proof (induction rows arbitrary: i0)
  case Nil
  show ?case by (simp add: cells_from_def)
next
  case (Cons row rows)
  have "(p, sq) \<in> set (cells_from i0 (row # rows)) \<longleftrightarrow>
        (\<exists>j < length row. p = (int i0, int j) \<and> sq = row ! j) \<or>
        (\<exists>i < length rows. \<exists>j < length (rows ! i). p = (int (Suc i0 + i), int j) \<and> sq = rows ! i ! j)"
    by (simp add: cells_from_Cons row_cells_iff Cons.IH)
  also have "\<dots> \<longleftrightarrow> (\<exists>i < length (row # rows). \<exists>j < length ((row # rows) ! i).
        p = (int (i0 + i), int j) \<and> sq = (row # rows) ! i ! j)"
    (is "?L \<or> ?R \<longleftrightarrow> ?T")
  proof
    assume "?L \<or> ?R"
    then show ?T
    proof
      assume ?L
      then show ?T by (intro exI [of _ 0]) simp
    next
      assume ?R
      then obtain i j where "i < length rows" "j < length (rows ! i)"
        "p = (int (Suc i0 + i), int j)" "sq = rows ! i ! j" by blast
      then show ?T by (intro exI [of _ "Suc i"]) simp
    qed
  next
    assume ?T
    then obtain i j where ij: "i < length (row # rows)" "j < length ((row # rows) ! i)"
        "p = (int (i0 + i), int j)" "sq = (row # rows) ! i ! j" by blast
    show "?L \<or> ?R"
    proof (cases i)
      case 0
      with ij show ?thesis by auto
    next
      case (Suc i')
      with ij have "i' < length rows \<and> j < length (rows ! i') \<and>
         p = (int (Suc i0 + i'), int j) \<and> sq = rows ! i' ! j" by simp
      then show ?thesis by blast
    qed
  qed
  finally show ?case .
qed

lemma cells_iff:
  "(p, sq) \<in> set (cells board) \<longleftrightarrow>
     (\<exists>i < length board. \<exists>j < length (board ! i).
        p = (int i, int j) \<and> sq = board ! i ! j)"
  by (simp add: cells_def cells_from_iff)

lemma row_cells_sorted: "sorted_wrt row_major (map fst (row_cells i j row))"
proof (induction row arbitrary: j)
  case Nil
  show ?case by (simp add: row_cells_def)
next
  case (Cons chess rest)
  have "row_major (int i, int j) (fst c)" if "c \<in> set (row_cells i (Suc j) rest)" for c
  proof -
    from that have "(fst c, snd c) \<in> set (row_cells i (Suc j) rest)" by simp
    then obtain k where "fst c = (int i, int (Suc j + k))" unfolding row_cells_iff by blast
    then show ?thesis by (simp add: row_major_def)
  qed
  with Cons.IH [of "Suc j"] show ?case by (simp add: row_cells_Cons)
qed

lemma cells_from_sorted: "sorted_wrt row_major (map fst (cells_from i rows))"
proof (induction rows arbitrary: i)
  case Nil
  show ?case by (simp add: cells_from_def)
next
  case (Cons row rows)
  have "row_major (fst c) (fst d)"
    if "c \<in> set (row_cells i 0 row)" "d \<in> set (cells_from (Suc i) rows)" for c d
  proof -
    from that(1) have "(fst c, snd c) \<in> set (row_cells i 0 row)" by simp
    then obtain j where c: "fst c = (int i, int (0 + j))" unfolding row_cells_iff by blast
    from that(2) have "(fst d, snd d) \<in> set (cells_from (Suc i) rows)" by simp
    then obtain k l where "fst d = (int (Suc i + k), int l)" unfolding cells_from_iff by blast
    with c show ?thesis by (simp add: row_major_def)
  qed
  with Cons.IH [of "Suc i"] row_cells_sorted [of i 0 row] show ?case
    by (simp add: cells_from_Cons sorted_wrt_append)
qed

lemma royal_positions_sorted: "sorted_wrt row_major (royal_positions myCamp (cells board))"
proof -
  have "sorted_wrt (\<lambda>c d. row_major (fst c) (fst d)) (cells board)"
    using cells_from_sorted [of 0 board] by (simp add: cells_def sorted_wrt_map)
  then have "sorted_wrt (\<lambda>c d. row_major (fst c) (fst d))
      (filter (\<lambda>c. royal myCamp (snd c)) (cells board))"
    by (rule sorted_wrt_filter)
  then show ?thesis by (simp add: royal_positions_def sorted_wrt_map)
qed

lemma occupied_reach_eq:
  assumes "\<forall>c \<in> set cs. snd c = None \<longrightarrow> g (fst c) = []"
  shows "occupied_reach g myCamp cs = opponent_reach g myCamp cs"
  using assms by (induction cs) (auto simp: occupied_reach_def opponent_reach_def)

section \<open>Claims about positions and the check detector\<close>

text \<open>
  Claim C3, as amended. For every board, camp and move-generation function,
  \<^verbatim>\<open>getIsChecked\<close> returns exactly the positions of the caller's own royal
  pieces that belong to the union of the destinations which the
  move-generation function reports over every square that does not hold one
  of the caller's own pieces, \<^emph>\<open>empty squares included\<close>; the positions are
  listed in row-major scan order, each royal piece is tested on its own, and
  without a royal piece the result is empty whatever the opponent reaches.
\<close>

theorem getIsChecked_royals_in_reach:
  "getIsChecked board myCamp g =
     filter (\<lambda>p. p \<in> opponent_reach g myCamp (cells board))
       (royal_positions myCamp (cells board))
   \<and> sorted_wrt row_major (getIsChecked board myCamp g)
   \<and> (royal_positions myCamp (cells board) = [] \<longrightarrow> getIsChecked board myCamp g = [])"
proof -
  have "sorted_wrt row_major (getIsChecked board myCamp g)"
    unfolding getIsChecked_eq using royal_positions_sorted by (rule sorted_wrt_filter)
  then show ?thesis by (simp add: getIsChecked_eq)
qed

text \<open>
  A board with no royal piece of camp 1: the opponent of camp 2 reaches every
  square of the row, and the result is empty.
\<close>

theorem getIsChecked_royals_in_reach_witness:
  "royal_positions 1 (cells [[Some \<lparr>Chess.camp = 1, isChief = False\<rparr>,
                              Some \<lparr>Chess.camp = 2, isChief = True\<rparr>]]) = []
   \<and> getIsChecked [[Some \<lparr>Chess.camp = 1, isChief = False\<rparr>,
                     Some \<lparr>Chess.camp = 2, isChief = True\<rparr>]] 1
        (\<lambda>p. [(0, 0), (0, 1)]) = []"
proof -
  have "royal_positions 1 (cells [[Some \<lparr>Chess.camp = 1, isChief = False\<rparr>,
                              Some \<lparr>Chess.camp = 2, isChief = True\<rparr>]]) = []"
    by (simp add: royal_positions_def cells_def cells_from_def row_cells_def royal_def)
  with getIsChecked_royals_in_reach
    [of "[[Some \<lparr>Chess.camp = 1, isChief = False\<rparr>, Some \<lparr>Chess.camp = 2, isChief = True\<rparr>]]"
        1 "\<lambda>p. [(0, 0), (0, 1)]"]
  show ?thesis by blast
qed

text \<open>
  Claim C3, as stated, restricts the reach set to \<^emph>\<open>occupied\<close> squares. On the
  one-row board with the caller's royal piece at \<open>(0, 0)\<close> and an empty square
  at \<open>(0, 1)\<close>, and a move-generation function that reports \<open>(0, 0)\<close> from the
  empty square, \<^verbatim>\<open>getIsChecked\<close> returns \<open>[(0, 0)]\<close>, where the stated
  property gives the empty list.
\<close>

theorem getIsChecked_empty_square_counterexample:
  "getIsChecked [[Some \<lparr>Chess.camp = 1, isChief = True\<rparr>, None]] 1
     (\<lambda>p. if p = (0, 1) then [(0, 0)] else []) = [(0, 0)]
   \<and> isChecked_spec [[Some \<lparr>Chess.camp = 1, isChief = True\<rparr>, None]] 1
     (\<lambda>p. if p = (0, 1) then [(0, 0)] else []) = []"
  by (simp add: getIsChecked_def visit_def own_def add_all_def isChecked_spec_def
        occupied_reach_def royal_positions_def cells_def cells_from_def row_cells_def royal_def)

text \<open>
  Claim C4. The two tests the program uses to compare positions agree with
  equality of both coordinates: \<^verbatim>\<open>isEqualPosition\<close> of the board component, and
  equality of the strings \<^verbatim>\<open>JSON.stringify\<close> yields, through which
  \<^verbatim>\<open>getIsChecked\<close> looks a royal position up in the reach set. Hence a cell is
  in the available moves exactly when the list contains it, and a position is
  found in the set of rendered moves exactly when the moves contain it.
\<close>

theorem position_equality_is_structural:
  "(isEqualPosition p q \<longleftrightarrow> fst p = fst q \<and> snd p = snd q)
   \<and> (JSON_stringify p = JSON_stringify q \<longleftrightarrow> fst p = fst q \<and> snd p = snd q)
   \<and> (isInAvailableMoves availableMoves p \<longleftrightarrow> p \<in> set availableMoves)
   \<and> (JSON_stringify p \<in> add_all moves {} \<longleftrightarrow> p \<in> set moves)
   \<and> (p \<in> set (getIsChecked board myCamp g) \<longleftrightarrow>
        p \<in> set (royal_positions myCamp (cells board))
        \<and> p \<in> opponent_reach g myCamp (cells board))"
proof -
  have "isInAvailableMoves availableMoves p \<longleftrightarrow> p \<in> set availableMoves"
    by (auto simp: isInAvailableMoves_def isEqualPosition_def list_ex_iff prod_eq_iff)
  moreover have "JSON_stringify p = JSON_stringify q \<longleftrightarrow> fst p = fst q \<and> snd p = snd q"
    by (simp add: JSON_stringify_eq_iff prod_eq_iff)
  moreover have "JSON_stringify p \<in> add_all moves {} \<longleftrightarrow> p \<in> set moves"
    by (simp add: add_all_eq JSON_stringify_mem)
  ultimately show ?thesis by (simp add: isEqualPosition_def getIsChecked_eq)
qed

theorem position_equality_is_structural_witness:
  "\<not> isEqualPosition (1, 12) (11, 2)
   \<and> JSON_stringify (1, 12) \<noteq> JSON_stringify (11, 2)
   \<and> isInAvailableMoves [(0, 3), (1, 12)] (1, 12)
   \<and> JSON_stringify (1, 12) \<in> add_all [(0, 3), (1, 12)] {}
   \<and> JSON_stringify (11, 2) \<notin> add_all [(0, 3), (1, 12)] {}"
  using position_equality_is_structural [of "(1, 12)" "(11, 2)" "[(0, 3), (1, 12)]" "[(0, 3), (1, 12)]"]
    position_equality_is_structural [of "(11, 2)" "(11, 2)" "[]" "[(0, 3), (1, 12)]"]
  by simp

text \<open>
  When the move-generation function reports nothing from an empty square, the
  scan agrees with the reach set taken over occupied squares only.
\<close>

lemma getIsChecked_eq_spec:
  assumes "\<forall>c \<in> set (cells board). snd c = None \<longrightarrow> g (fst c) = []"
  shows "getIsChecked board myCamp g = isChecked_spec board myCamp g"
  using occupied_reach_eq [OF assms] by (simp add: getIsChecked_eq isChecked_spec_def)

text \<open>
  A board of three rows: the royal piece of camp 1 stands at \<open>(2, 1)\<close>, and a
  piece of camp 2 at \<open>(0, 1)\<close> reaches that square.
\<close>

lemma getIsChecked_example:
  "getIsChecked
     [[None, Some \<lparr>Chess.camp = 2, isChief = False\<rparr>, None],
      [None, None, None],
      [None, Some \<lparr>Chess.camp = 1, isChief = True\<rparr>, None]] 1
     (\<lambda>p. if p = (0, 1) then [(1, 1), (2, 1)] else []) = [(2, 1)]"
  by (simp add: getIsChecked_eq royal_positions_def opponent_reach_def cells_def cells_from_def
        row_cells_def royal_def own_def)

section \<open>Properties of the protocol engine\<close>

subsection \<open>Effects and resolutions\<close>

lemma resolutions_append:
  "resolutions p (xs @ ys) = resolutions p xs @ resolutions p ys"
  by (induction p xs rule: resolutions.induct) simp_all

lemma effects_emit: "effects (emit es c) = effects c @ es"
  by (simp add: emit_def)

lemma effects_close:
  "effects (GameClient_close content c) =
     effects c @ (if isConnectSuccess c then [WsClose None] else []) @
       (case content of
          None \<Rightarrow> []
        | Some v \<Rightarrow> if truthy (Some v) then [ShowErrorBox err_title v] else []) @
       [CallClose]"
  by (simp add: GameClient_close_def emit_def)

lemma resolutions_close:
  "resolutions q (effects (GameClient_close content c)) = resolutions q (effects c)"
  by (simp add: effects_close resolutions_append split: option.splits)

lemma resolutions_connect_success:
  "resolutions q (effects (on_connect_success col m c)) = resolutions q (effects c)"
proof (cases "as_handshake (msg_data m)")
  case None
  then show ?thesis
    by (simp add: on_connect_success_def effects_emit resolutions_append)
next
  case (Some h)
  obtain n md nm required where "h = (n, md, nm, required)" by (cases h) auto
  with Some show ?thesis
    by (simp add: on_connect_success_def Let_def effects_emit resolutions_close
          resolutions_append)
qed

lemma resolutions_connect_fail:
  "resolutions q (effects (on_connect_fail m c)) = resolutions q (effects c)"
  by (simp add: on_connect_fail_def resolutions_close effects_emit resolutions_append)

lemma resolutions_push:
  "resolutions q (effects (push col m c)) = resolutions q (effects c)"
  by (simp add: push_def resolutions_connect_success resolutions_connect_fail effects_emit
        resolutions_append)

lemma join_nonempty:
  assumes "xs \<noteq> []" and "\<forall>x \<in> set xs. x \<noteq> []"
  shows "join sep xs \<noteq> []"
proof (cases xs)
  case Nil
  with assms show ?thesis by simp
next
  case (Cons x ys)
  with assms show ?thesis by (cases ys) simp_all
qed

lemma existingExtensions_eq:
  "existingExtensions exts =
     (if exts = [] then none_marker
      else join line_sep (map (\<lambda>ext. key ext @ ''@'' @ version ext) exts))"
proof (cases "exts = []")
  case True
  then show ?thesis by (simp add: existingExtensions_def)
next
  case False
  then have "join line_sep (map (\<lambda>ext. key ext @ ''@'' @ version ext) exts) \<noteq> []"
    by (intro join_nonempty) auto
  with False show ?thesis by (simp add: existingExtensions_def Let_def)
qed

lemma strings_of_map: "strings_of (map (\<lambda>(k, v). (k, JStr v)) required) = Some required"
  by (induction required) auto

lemma as_handshake_handshake:
  "as_handshake (msg_data (handshake n nm required)) =
     Some (n, JObj [(''name'', JStr nm),
                    (''extensions'', JObj (map (\<lambda>(k, v). (k, JStr v)) required))], nm, required)"
  by (simp add: as_handshake_def handshake_def strings_of_map)

subsection \<open>One request under any schedule of messages and timer\<close>

lemma messageHandlers_push: "messageHandlers (push col m c) = messageHandlers c"
proof -
  have s: "messageHandlers (on_connect_success col m c) = messageHandlers c"
  proof (cases "as_handshake (msg_data m)")
    case None
    then show ?thesis by (simp add: on_connect_success_def emit_def)
  next
    case (Some h)
    obtain n md nm required where "h = (n, md, nm, required)" by (cases h) auto
    with Some show ?thesis
      by (simp add: on_connect_success_def Let_def emit_def GameClient_close_def)
  qed
  have f: "messageHandlers (on_connect_fail m c) = messageHandlers c"
    by (simp add: on_connect_fail_def emit_def GameClient_close_def)
  show ?thesis by (simp add: push_def s f emit_def)
qed

text \<open>A message is handed to the handler stored under its id, or is a push.\<close>

lemma onMessage_cases:
  obtains (response) i j q where "msg_id m = Some (JStr i)" "i \<noteq> []"
      "messageHandlers c i = Some (Handler j q)"
      "onMessage col (Parsed m) c =
         emit [Resolve q \<lparr>status = msg_type m, data = msg_data m\<rparr>]
           (c\<lparr>messageHandlers := (messageHandlers c)(j := None)\<rparr>)"
  | (push) "\<not> is_response c m" "onMessage col (Parsed m) c = push col m c"
proof (cases "is_response c m")
  case True
  then have t: "truthy (msg_id m)" and g: "get_handler c m \<noteq> None"
    by (simp_all add: is_response_def)
  from g obtain i h where i: "msg_id m = Some (JStr i)" "messageHandlers c i = Some h"
    by (auto simp: get_handler_def split: option.splits json.splits)
  from t i have n: "i \<noteq> []" by simp
  obtain j q where h: "h = Handler j q" by (cases h)
  from True i h have "onMessage col (Parsed m) c =
         emit [Resolve q \<lparr>status = msg_type m, data = msg_data m\<rparr>]
           (c\<lparr>messageHandlers := (messageHandlers c)(j := None)\<rparr>)"
    by (simp add: onMessage_def get_handler_def)
  with i n h show ?thesis by (intro response) simp_all
next
  case False
  then have "onMessage col (Parsed m) c = push col m c" by (simp add: onMessage_def)
  with False show ?thesis by (rule push)
qed

lemma onMessage_gone:
  assumes "keyed c" and "gone messageId p c"
  shows "keyed (onMessage col rawData c) \<and> gone messageId p (onMessage col rawData c)
     \<and> resolutions p (effects (onMessage col rawData c)) = resolutions p (effects c)"
proof (cases rawData)
  case Malformed
  with assms show ?thesis
    by (simp add: onMessage_def emit_def keyed_def gone_def resolutions_append)
next
  case ParsedNull
  with assms show ?thesis
    by (simp add: onMessage_def emit_def keyed_def gone_def resolutions_append)
next
  case (Parsed m)
  show ?thesis
  proof (cases rule: onMessage_cases [of m c col])
    case (response i j q)
    from assms(2) response(3) have "q \<noteq> p" by (auto simp: gone_def)
    with assms response show ?thesis unfolding Parsed
      by (simp add: emit_def keyed_def gone_def resolutions_append)
  next
    case push
    with assms show ?thesis unfolding Parsed
      by (simp add: keyed_def gone_def messageHandlers_push resolutions_push)
  qed
qed

lemma onMessage_pending:
  assumes "keyed c" and "pending messageId p c"
  shows "keyed (onMessage col rawData c)
     \<and> (pending messageId p (onMessage col rawData c)
          \<and> resolutions p (effects (onMessage col rawData c)) = resolutions p (effects c)
        \<or> gone messageId p (onMessage col rawData c)
          \<and> (\<exists>r. resolutions p (effects (onMessage col rawData c)) =
                 resolutions p (effects c) @ [r]))"
proof (cases rawData)
  case Malformed
  with assms show ?thesis
    by (simp add: onMessage_def emit_def keyed_def pending_def resolutions_append)
next
  case ParsedNull
  with assms show ?thesis
    by (simp add: onMessage_def emit_def keyed_def pending_def resolutions_append)
next
  case (Parsed m)
  show ?thesis
  proof (cases rule: onMessage_cases [of m c col])
    case (response i j q)
    from assms(1) response(3) have j: "j = i" by (auto simp: keyed_def)
    show ?thesis
    proof (cases "q = p")
      case True
      with assms(2) response(3) have "i = messageId" by (auto simp: pending_def)
      with assms response j True show ?thesis unfolding Parsed
        by (auto simp: emit_def keyed_def pending_def gone_def resolutions_append)
    next
      case False
      with assms(2) response(3) j have "j \<noteq> messageId" by (auto simp: pending_def)
      with assms response False show ?thesis unfolding Parsed
        by (auto simp: emit_def keyed_def pending_def resolutions_append)
    qed
  next
    case push
    with assms show ?thesis unfolding Parsed
      by (simp add: keyed_def pending_def messageHandlers_push resolutions_push)
  qed
qed

lemma fire_gone:
  assumes "gone messageId p c"
  shows "fire (RequestTimeout messageId p) c = c"
  using assms by (simp add: gone_def)

lemma fire_pending:
  assumes "keyed c" and "pending messageId p c"
  shows "keyed (fire (RequestTimeout messageId p) c)
     \<and> gone messageId p (fire (RequestTimeout messageId p) c)
     \<and> resolutions p (effects (fire (RequestTimeout messageId p) c)) =
         resolutions p (effects c) @ [timeout_response]"
  using assms
  by (auto simp: emit_def keyed_def pending_def gone_def resolutions_append)

lemma run_gone:
  assumes "keyed c" and "gone messageId p c"
  shows "resolutions p (effects (run col messageId p evs c)) = resolutions p (effects c)"
  using assms
proof (induction evs arbitrary: c)
  case Nil
  show ?case by simp
next
  case (Cons ev evs)
  show ?case
  proof (cases ev)
    case (Inbound rawData)
    from onMessage_gone [OF Cons.prems, of col rawData] Cons.IH [of "onMessage col rawData c"]
    show ?thesis unfolding Inbound by simp
  next
    case Expire
    from fire_gone [OF Cons.prems(2)] Cons.IH [OF Cons.prems]
    show ?thesis unfolding Expire by (simp del: fire.simps)
  qed
qed

lemma run_pending:
  assumes "keyed c" and "pending messageId p c"
  shows "\<exists>rs. resolutions p (effects (run col messageId p evs c)) = resolutions p (effects c) @ rs
     \<and> length rs \<le> 1 \<and> (Expire \<in> set evs \<longrightarrow> length rs = 1)"
  using assms
proof (induction evs arbitrary: c)
  case Nil
  show ?case by simp
next
  case (Cons ev evs)
  show ?case
  proof (cases ev)
    case (Inbound rawData)
    let ?d = "onMessage col rawData c"
    from onMessage_pending [OF Cons.prems, of col rawData]
    have k: "keyed ?d"
      and d: "pending messageId p ?d \<and> resolutions p (effects ?d) = resolutions p (effects c)
        \<or> gone messageId p ?d
          \<and> (\<exists>r. resolutions p (effects ?d) = resolutions p (effects c) @ [r])"
      by blast+
    from d show ?thesis
    proof
      assume a: "pending messageId p ?d \<and> resolutions p (effects ?d) = resolutions p (effects c)"
      with Cons.IH [OF k, of ] show ?thesis unfolding Inbound by simp
    next
      assume a: "gone messageId p ?d
          \<and> (\<exists>r. resolutions p (effects ?d) = resolutions p (effects c) @ [r])"
      then obtain r where r: "resolutions p (effects ?d) = resolutions p (effects c) @ [r]"
        by blast
      from a run_gone [OF k, of messageId p col evs]
      have "resolutions p (effects (run col messageId p evs ?d)) =
          resolutions p (effects c) @ [r]" by (simp add: r)
      then show ?thesis unfolding Inbound by (intro exI [of _ "[r]"]) simp
    qed
  next
    case Expire
    let ?d = "fire (RequestTimeout messageId p) c"
    from fire_pending [OF Cons.prems]
    have k: "keyed ?d" and g: "gone messageId p ?d"
      and r: "resolutions p (effects ?d) = resolutions p (effects c) @ [timeout_response]"
      by blast+
    from run_gone [OF k g, of col evs] r
    have "resolutions p (effects (run col messageId p evs ?d)) =
        resolutions p (effects c) @ [timeout_response]" by simp
    then show ?thesis unfolding Expire
      by (intro exI [of _ "[timeout_response]"]) (simp del: fire.simps)
  qed
qed

text \<open>
  A request that is transmitted from a state in which every handler is keyed
  by its id and belongs to an earlier promise: however the messages and the
  firing of its timer are interleaved afterwards, its promise is resolved at
  most once, and exactly once as soon as the timer has fired. The schedules
  hold no second request and no timer of another request; what those can do
  to a request under a reused id is shown below.
\<close>

lemma request_resolved_once_under_any_schedule:
  assumes "keyed c" and "created c"
  shows "\<exists>rs. resolutions (nextPromise c)
           (effects (run col messageId (nextPromise c) evs
              (fst (contactToServer Transmitted messageId ty dat c)))) =
         resolutions (nextPromise c) (effects c) @ rs
     \<and> length rs \<le> 1 \<and> (Expire \<in> set evs \<longrightarrow> length rs = 1)"
proof -
  let ?d = "fst (contactToServer Transmitted messageId ty dat c)"
  have k: "keyed ?d"
    using assms(1) by (simp add: contactToServer_def Let_def emit_def keyed_def)
  have p: "pending messageId (nextPromise c) ?d"
    using assms(2) by (auto simp: contactToServer_def Let_def emit_def created_def pending_def)
  have e: "resolutions (nextPromise c) (effects ?d) = resolutions (nextPromise c) (effects c)"
    by (simp add: contactToServer_def Let_def emit_def resolutions_append)
  from run_pending [OF k p, of col evs] show ?thesis by (simp only: e)
qed

text \<open>
  The two conditions hold of a new client and are kept by every operation of
  the client.
\<close>

lemma nextPromise_push: "nextPromise (push col m c) = nextPromise c"
proof -
  have s: "nextPromise (on_connect_success col m c) = nextPromise c"
  proof (cases "as_handshake (msg_data m)")
    case None
    then show ?thesis by (simp add: on_connect_success_def emit_def)
  next
    case (Some h)
    obtain n md nm required where "h = (n, md, nm, required)" by (cases h) auto
    with Some show ?thesis
      by (simp add: on_connect_success_def Let_def emit_def GameClient_close_def)
  qed
  have f: "nextPromise (on_connect_fail m c) = nextPromise c"
    by (simp add: on_connect_fail_def emit_def GameClient_close_def)
  show ?thesis by (simp add: push_def s f emit_def)
qed

lemma keyed_created_new: "keyed (new_GameClient wid local) \<and> created (new_GameClient wid local)"
  by (simp add: keyed_def created_def new_GameClient_def)

lemma keyed_created_contactToServer:
  assumes "keyed c" and "created c"
  shows "keyed (fst (contactToServer t messageId ty dat c))
     \<and> created (fst (contactToServer t messageId ty dat c))"
  using assms
  by (cases t) (auto simp: contactToServer_def Let_def emit_def keyed_def created_def less_Suc_eq)

lemma keyed_created_onMessage:
  assumes "keyed c" and "created c"
  shows "keyed (onMessage col rawData c) \<and> created (onMessage col rawData c)"
proof (cases rawData)
  case Malformed
  with assms show ?thesis by (simp add: onMessage_def emit_def keyed_def created_def)
next
  case ParsedNull
  with assms show ?thesis by (simp add: onMessage_def emit_def keyed_def created_def)
next
  case (Parsed m)
  show ?thesis
  proof (cases rule: onMessage_cases [of m c col])
    case (response i j q)
    with assms show ?thesis unfolding Parsed
      by (simp add: emit_def keyed_def created_def)
  next
    case push
    with assms show ?thesis unfolding Parsed
      by (simp add: keyed_def created_def messageHandlers_push nextPromise_push)
  qed
qed

lemma keyed_created_fire:
  assumes "keyed c" and "created c"
  shows "keyed (fire cb c) \<and> created (fire cb c)"
  using assms
  by (cases cb) (simp_all add: emit_def keyed_def created_def GameClient_close_def)

section \<open>Claims about the correlator\<close>

text \<open>
  What the correlator does for a request that is transmitted under an id other
  than the empty string, in the two orders of its response and its timer, each
  taken right after the call. If the response comes first, the promise is
  resolved with the type and payload of the message, and neither the timer
  nor a further message under that id resolves anything; if the timer comes
  first, the promise is resolved with the timeout error, and neither a second
  firing nor a later response resolves anything.
\<close>

lemma transmitted_request_two_orders:
  assumes "messageId \<noteq> []"
    and "m = \<lparr>msg_type = st, msg_data = payload, msg_id = Some (JStr messageId)\<rparr>"
  shows
    "let r = contactToServer Transmitted messageId ty dat c;
         waiting = fst r;
         p = snd r;
         answered = onMessage col (Parsed m) waiting;
         expired = fire (RequestTimeout messageId p) waiting
     in effects waiting = effects c @ [WsSend (request ty dat messageId),
                                       SetTimeout (RequestTimeout messageId p) timeout]
        \<and> effects answered = effects waiting @ [Resolve p \<lparr>status = st, data = payload\<rparr>]
        \<and> fire (RequestTimeout messageId p) answered = answered
        \<and> (\<forall>q. resolutions q (effects (onMessage col (Parsed m) answered)) =
                 resolutions q (effects answered))
        \<and> effects expired = effects waiting @ [Resolve p timeout_response]
        \<and> fire (RequestTimeout messageId p) expired = expired
        \<and> (\<forall>q. resolutions q (effects (onMessage col (Parsed m) expired)) =
                 resolutions q (effects expired))"
proof -
  define waiting where "waiting = fst (contactToServer Transmitted messageId ty dat c)"
  define p where "p = snd (contactToServer Transmitted messageId ty dat c)"
  have p: "p = nextPromise c" by (simp add: p_def contactToServer_def Let_def)
  have h: "messageHandlers waiting messageId = Some (Handler messageId p)"
    by (simp add: waiting_def p contactToServer_def Let_def emit_def)
  have e: "effects waiting = effects c @ [WsSend (request ty dat messageId),
                                       SetTimeout (RequestTimeout messageId p) timeout]"
    by (simp add: waiting_def p contactToServer_def Let_def emit_def)
  have resp: "is_response waiting m"
    using assms h by (simp add: is_response_def get_handler_def)
  have a: "onMessage col (Parsed m) waiting =
      emit [Resolve p \<lparr>status = st, data = payload\<rparr>]
        (waiting\<lparr>messageHandlers := (messageHandlers waiting)(messageId := None)\<rparr>)"
    using resp h assms by (simp add: onMessage_def get_handler_def)
  have x: "fire (RequestTimeout messageId p) waiting =
      emit [Resolve p timeout_response]
        (waiting\<lparr>messageHandlers := (messageHandlers waiting)(messageId := None)\<rparr>)"
    using h by simp
  define answered where "answered = onMessage col (Parsed m) waiting"
  define expired where "expired = fire (RequestTimeout messageId p) waiting"
  have free: "fire (RequestTimeout messageId p) d = d
      \<and> (\<forall>q. resolutions q (effects (onMessage col (Parsed m) d)) = resolutions q (effects d))"
    if "messageHandlers d messageId = None" for d
  proof -
    from that assms have "\<not> is_response d m" by (simp add: is_response_def get_handler_def)
    then show ?thesis using that by (simp add: onMessage_def resolutions_push)
  qed
  have ea: "effects answered = effects waiting @ [Resolve p \<lparr>status = st, data = payload\<rparr>]"
    by (simp add: answered_def a effects_emit)
  have ex: "effects expired = effects waiting @ [Resolve p timeout_response]"
    unfolding expired_def x by (simp add: effects_emit)
  have "messageHandlers answered messageId = None"
    by (simp add: answered_def a emit_def)
  note ga = free [OF this]
  have "messageHandlers expired messageId = None"
    unfolding expired_def x by (simp add: emit_def)
  note gx = free [OF this]
  show ?thesis
    unfolding Let_def waiting_def [symmetric] p_def [symmetric]
      answered_def [symmetric] expired_def [symmetric]
    using e ea ex ga gx by blast
qed


text \<open>
  Claim C2 asks that no handler stay registered when transmission fails. When
  \<^verbatim>\<open>this.ws.send\<close> throws, as it does while the socket is still connecting,
  the handler was registered just before and the \<^verbatim>\<open>catch\<close> block does not
  remove it: the result is resolved with the transport error, the entry stays
  in \<^verbatim>\<open>messageHandlers\<close>, and the timer later finds it and calls \<^verbatim>\<open>resolve\<close> a
  second time.
\<close>

theorem contactToServer_send_failure_keeps_handler:
  "messageHandlers (fst (contactToServer SendThrows ''k3'' ''move'' None
        (new_GameClient 7 False))) ''k3'' = Some (Handler ''k3'' 0)
   \<and> resolutions 0 (effects (fst (contactToServer SendThrows ''k3'' ''move'' None
        (new_GameClient 7 False)))) = [send_failure]
   \<and> resolutions 0 (effects (fire (RequestTimeout ''k3'' 0)
        (fst (contactToServer SendThrows ''k3'' ''move'' None (new_GameClient 7 False)))))
     = [send_failure, timeout_response]"
  by (simp add: contactToServer_def Let_def new_GameClient_def emit_def)

text \<open>
  When it is the serialization that throws, the result is resolved with the
  transport error before the timer is set, and the map of handlers is left as
  it was.
\<close>

lemma contactToServer_serialization_failure:
  "messageHandlers (fst (contactToServer StringifyThrows messageId ty dat c)) = messageHandlers c
   \<and> effects (fst (contactToServer StringifyThrows messageId ty dat c)) =
       effects c @ [Resolve (nextPromise c) send_failure,
                    SetTimeout (RequestTimeout messageId (nextPromise c)) timeout]"
  by (simp add: contactToServer_def Let_def emit_def)

section \<open>Claims about the handshake and the dispatcher\<close>

text \<open>
  Claim C5. When a networked session receives the handshake-success push and
  \<^verbatim>\<open>checkExtensions\<close> fails on the loaded extensions, the one dialog shown
  carries as its detail the header of the required set followed by one
  \<open>key@version\<close> line for each required extension, in the order of
  \<^verbatim>\<open>Object.entries\<close>, then the header of the available set followed by one
  such line for each loaded extension, in list order, or by the "none" marker
  when no extension is loaded; after the dialog the session closes.
\<close>

theorem negotiation_failure_diagnostic:
  assumes "msg_type m = Some (JStr ''connect-success'')"
    and "\<not> is_response c m"
    and "as_handshake (msg_data m) = Some (n, md, nm, required)"
    and "\<not> isLocal c"
    and "exts = loadExtensions col (extensions c) required"
    and "\<not> checkExtensions col exts required"
  shows "effects (onMessage col (Parsed m) c) =
     effects c @
       [ShowMessageBox ''error'' err_title mismatch_message
          (required_header @ line_sep @
             join line_sep (map (\<lambda>(k, v). k @ ''@'' @ v) required) @ newline @
           existing_header @ line_sep @
             (if exts = [] then none_marker
              else join line_sep (map (\<lambda>ext. key ext @ ''@'' @ version ext) exts))),
        WsClose None, CallClose]"
  using assms
  by (simp add: onMessage_def push_def on_connect_success_def Let_def effects_close
        emit_def detail_def requiredExtensions_def existingExtensions_eq)

text \<open>
  Required \<open>{a: "1", b: "2"}\<close>, available \<open>[a@1]\<close>: negotiation fails, and the
  detail lists both required entries and the one available entry.
\<close>

theorem negotiation_failure_diagnostic_witness:
  "\<not> checkExtensions_spec [\<lparr>key = ''a'', name = ''A'', author = ''x'', version = ''1''\<rparr>]
        [(''a'', ''1''), (''b'', ''2'')]
   \<and> effects (onMessage
        (environment [\<lparr>key = ''a'', name = ''A'', author = ''x'', version = ''1''\<rparr>])
        (Parsed (handshake 2 ''m'' [(''a'', ''1''), (''b'', ''2'')]))
        (new_GameClient 7 False)) =
      effects (new_GameClient 7 False) @
        [ShowMessageBox ''error'' err_title mismatch_message
           (required_header @ line_sep @ ''a@1'' @ line_sep @ ''b@2'' @ newline @
            existing_header @ line_sep @ ''a@1''),
         WsClose None, CallClose]"
proof -
  let ?a = "\<lparr>key = ''a'', name = ''A'', author = ''x'', version = ''1''\<rparr>"
  let ?required = "[(''a'', ''1''), (''b'', ''2'')]"
  have f: "\<not> checkExtensions_spec [?a] ?required"
    by (simp add: checkExtensions_spec_def)
  have 1: "msg_type (handshake 2 ''m'' ?required) = Some (JStr ''connect-success'')"
    by (simp add: handshake_def)
  have 2: "\<not> is_response (new_GameClient 7 False) (handshake 2 ''m'' ?required)"
    by (simp add: is_response_def handshake_def)
  have 4: "\<not> isLocal (new_GameClient 7 False)"
    by (simp add: new_GameClient_def)
  have 5: "[?a] = loadExtensions (environment [?a]) (extensions (new_GameClient 7 False)) ?required"
    by (simp add: environment_def)
  have 6: "\<not> checkExtensions (environment [?a]) [?a] ?required"
    using f by (simp add: environment_def)
  from negotiation_failure_diagnostic [OF 1 2 as_handshake_handshake 4 5 6] f
  show ?thesis by simp
qed

text \<open>
  Claim C6. In a local session the compatibility check is not consulted on
  handshake success: whatever \<^verbatim>\<open>checkExtensions\<close> would answer, the session
  records the camp and the map, sends \<open>prepared\<close> to the peer, and notifies the
  presentation layer with \<open>connect-success\<close>; it shows no dialog and does not
  close.
\<close>

theorem local_session_skips_negotiation:
  assumes "isLocal c"
    and "msg_type m = Some (JStr ''connect-success'')"
    and "\<not> is_response c m"
    and "as_handshake (msg_data m) = Some (n, md, nm, required)"
  shows "camp (onMessage col (Parsed m) c) = n
     \<and> mapData (onMessage col (Parsed m) c) = Some md
     \<and> isConnectSuccess (onMessage col (Parsed m) c)
     \<and> effects (onMessage col (Parsed m) c) =
          effects c @ [WsSend (JObj [(''type'', JStr ''prepared'')]),
                       SetTitle (nm @ '' - '' @ mode_label True),
                       WebContentsSend ''connect-success'' None]"
  using assms
  by (simp add: onMessage_def push_def on_connect_success_def Let_def emit_def)

text \<open>
  A local session with no extension loaded receives a map that requires
  \<open>a@1\<close>: the check would fail, and the handshake completes all the same.
\<close>

theorem local_session_skips_negotiation_witness:
  "isLocal (new_GameClient 7 True)
   \<and> \<not> checkExtensions (environment [])
         (loadExtensions (environment []) [] [(''a'', ''1'')]) [(''a'', ''1'')]
   \<and> camp (onMessage (environment []) (Parsed (handshake 2 ''m'' [(''a'', ''1'')]))
        (new_GameClient 7 True)) = 2
   \<and> effects (onMessage (environment []) (Parsed (handshake 2 ''m'' [(''a'', ''1'')]))
        (new_GameClient 7 True)) =
      effects (new_GameClient 7 True) @
        [WsSend (JObj [(''type'', JStr ''prepared'')]),
         SetTitle (''m'' @ '' - '' @ mode_label True),
         WebContentsSend ''connect-success'' None]"
proof -
  have 1: "isLocal (new_GameClient 7 True)"
    by (simp add: new_GameClient_def)
  have 2: "msg_type (handshake 2 ''m'' [(''a'', ''1'')]) = Some (JStr ''connect-success'')"
    by (simp add: handshake_def)
  have 3: "\<not> is_response (new_GameClient 7 True) (handshake 2 ''m'' [(''a'', ''1'')])"
    by (simp add: is_response_def handshake_def)
  have 4: "\<not> checkExtensions (environment [])
         (loadExtensions (environment []) [] [(''a'', ''1'')]) [(''a'', ''1'')]"
    by (simp add: environment_def checkExtensions_spec_def)
  from local_session_skips_negotiation [OF 1 2 3 as_handshake_handshake, of "environment []"] 1 4
  show ?thesis by simp
qed







text \<open>
  Claim C10. A call of \<^verbatim>\<open>contact\<close> with type \<open>get-state\<close> sends the request
  through \<^verbatim>\<open>contactToServer\<close>, which leaves the stored board alone, and awaits
  its promise. On the value \<open>res\<close> of that promise, the stored board is replaced
  by the \<open>chessboard\<close> entry of the payload exactly when the status is
  \<open>success\<close> and the payload is an object with such an entry; in every other
  case (an error status, which includes the timeout and the transport error,
  or a payload without the entry) the state is unchanged; \<open>res\<close> itself is
  returned in every case.
\<close>

theorem get_state_replaces_snapshot:
  "contact col t messageId ''get-state'' dat c =
     (fst (contactToServer t messageId ''get-state'' dat c),
      Awaiting (snd (contactToServer t messageId ''get-state'' dat c)))
   \<and> chessboard (fst (contactToServer t messageId ''get-state'' dat c)) = chessboard c
   \<and> snd (contact_resume ''get-state'' res d) = res
   \<and> fst (contact_resume ''get-state'' res d) =
       (case data res of
          Some (JObj fs) \<Rightarrow>
            (case map_of fs ''chessboard'' of
               Some board \<Rightarrow> if status res = Some (JStr ''success'') then d\<lparr>chessboard := board\<rparr> else d
             | None \<Rightarrow> d)
        | _ \<Rightarrow> d)"
proof -
  have "chessboard (fst (contactToServer t messageId ''get-state'' dat c)) = chessboard c"
    by (cases t) (simp_all add: contactToServer_def Let_def emit_def)
  moreover have "snd (contact_resume ''get-state'' res d) = res"
    by (simp add: contact_resume_def in_chessboard_def split: option.splits)
  moreover have "fst (contact_resume ''get-state'' res d) =
       (case data res of
          Some (JObj fs) \<Rightarrow>
            (case map_of fs ''chessboard'' of
               Some board \<Rightarrow> if status res = Some (JStr ''success'') then d\<lparr>chessboard := board\<rparr> else d
             | None \<Rightarrow> d)
        | _ \<Rightarrow> d)"
    by (simp add: contact_resume_def in_chessboard_def split: option.splits json.splits)
  ultimately show ?thesis by (simp add: contact_def Let_def)
qed

text \<open>
  A successful response with a board replaces the snapshot; the timeout error
  and a successful response without a board leave it as it was.
\<close>

theorem get_state_replaces_snapshot_witness:
  "chessboard (fst (contact_resume ''get-state''
       \<lparr>status = Some (JStr ''success''), data = Some (JObj [(''turn'', JNum 1),
          (''chessboard'', JArr [JArr [JNull]])])\<rparr> (new_GameClient 7 False))) = JArr [JArr [JNull]]
   \<and> chessboard (fst (contact_resume ''get-state'' timeout_response
       ((new_GameClient 7 False)\<lparr>chessboard := JArr [JArr [JNull]]\<rparr>))) = JArr [JArr [JNull]]
   \<and> chessboard (fst (contact_resume ''get-state''
       \<lparr>status = Some (JStr ''success''), data = Some (JObj [(''turn'', JNum 1)])\<rparr>
       ((new_GameClient 7 False)\<lparr>chessboard := JArr [JArr [JNull]]\<rparr>))) = JArr [JArr [JNull]]
   \<and> snd (contact_resume ''get-state'' timeout_response (new_GameClient 7 False)) = timeout_response"
  using get_state_replaces_snapshot
      [where res = "\<lparr>status = Some (JStr ''success''), data = Some (JObj [(''turn'', JNum 1),
          (''chessboard'', JArr [JArr [JNull]])])\<rparr>" and d = "new_GameClient 7 False"]
    get_state_replaces_snapshot
      [where res = timeout_response and d = "(new_GameClient 7 False)\<lparr>chessboard := JArr [JArr [JNull]]\<rparr>"]
    get_state_replaces_snapshot
      [where res = "\<lparr>status = Some (JStr ''success''), data = Some (JObj [(''turn'', JNum 1)])\<rparr>"
         and d = "(new_GameClient 7 False)\<lparr>chessboard := JArr [JArr [JNull]]\<rparr>"]
    get_state_replaces_snapshot
      [where res = timeout_response and d = "new_GameClient 7 False"]
  by (simp add: timeout_response_def)

section \<open>Claims about the coordinator\<close>

lemma createClients_close_twice:
  "createClients_close (createClients_close s) = createClients_close s"
  by (simp add: createClients_close_def)

lemma createClients_close_funpow:
  "(createClients_close ^^ Suc k) s = createClients_close s"
  by (induction k) (simp_all add: createClients_close_twice)

text \<open>
  Claim C8. On a coordinator that is not yet closed, the first call of the
  shared \<^verbatim>\<open>close\<close> destroys the window of every client, removes the \<open>contact\<close>
  handler and calls \<^verbatim>\<open>stopGame\<close> once. Every later call changes nothing, so
  that after any number of calls \<^verbatim>\<open>stopGame\<close> has been called once; and an
  action sent on the \<open>contact\<close> channel after the close fails for want of a
  handler, from whichever window it comes, the formerly owned ones included.
\<close>

theorem createClients_close_idempotent:
  assumes "\<not> isClosed s"
  shows "list_all windowDestroyed (gameClients (createClients_close s))
     \<and> map window_id (gameClients (createClients_close s)) = map window_id (gameClients s)
     \<and> \<not> contactHandler (createClients_close s)
     \<and> stopGame_calls (createClients_close s) = Suc (stopGame_calls s)
     \<and> createClients_close (createClients_close s) = createClients_close s
     \<and> (createClients_close ^^ Suc k) s = createClients_close s
     \<and> invoke_contact col t messageId sender ty dat (createClients_close s) =
         Inl NoHandlerRegistered"
  using assms
  by (simp add: createClients_close_twice createClients_close_funpow del: funpow.simps)
     (simp add: createClients_close_def invoke_contact_def list_all_iff comp_def)

text \<open>
  Two local sessions under one coordinator, with windows 7 and 8: before the
  close an action of window 7 reaches its session; after two calls of the
  close the callback has been called once and the same action fails.
\<close>

theorem createClients_close_idempotent_witness:
  "\<not> isClosed (createClients [7, 8] True)
   \<and> \<not> isl (invoke_contact (environment []) Transmitted ''k3'' 7 ''get-info'' None
         (createClients [7, 8] True))
   \<and> stopGame_calls (createClients_close (createClients_close (createClients [7, 8] True))) = 1
   \<and> list_all windowDestroyed (gameClients (createClients_close (createClients [7, 8] True)))
   \<and> invoke_contact (environment []) Transmitted ''k3'' 7 ''get-info'' None
        (createClients_close (createClients_close (createClients [7, 8] True))) =
      Inl NoHandlerRegistered"
proof -
  let ?s = "createClients [7, 8] True"
  have o: "\<not> isClosed ?s" by (simp add: createClients_def)
  have z: "stopGame_calls ?s = 0" by (simp add: createClients_def)
  have r: "\<not> isl (invoke_contact (environment []) Transmitted ''k3'' 7 ''get-info'' None ?s)"
    by (simp add: invoke_contact_def createClients_def new_GameClient_def Let_def)
  note t = createClients_close_idempotent [OF o, of 1 "environment []" Transmitted "''k3''" 7
      "''get-info''" None]
  from t have tw: "createClients_close (createClients_close ?s) = createClients_close ?s"
    by blast
  from t o r z show ?thesis unfolding tw by simp
qed

end
